theory Spec2Isabelle
  imports
    Complex_Main
    "HOL-Library.Word"
    "HOL-Library.Multiset"
    "HOL-Library.List_Lexorder"
begin

section \<open>JavaScript strings\<close>

text \<open>
  A JavaScript string is a sequence of UTF-16 code units and \<open>length\<close>, \<open>slice\<close>,
  \<open>split\<close> and \<open>trim\<close> count and cut code units. The ellipsis of \<open>truncateHash\<close> is the
  single code unit U+2026, which an 8-bit \<open>char\<close> cannot hold, so strings are lists of
  16-bit words. ASCII literals of the source are written through \<open>js\<close>.
\<close>

type_synonym code_unit = "16 word"
type_synonym jsstring = "code_unit list"

definition js :: "string \<Rightarrow> jsstring" where
  "js s = map of_char s"

definition SPACE :: code_unit where "SPACE = 0x20"
definition SLASH :: code_unit where "SLASH = 0x2F"
definition DOT :: code_unit where "DOT = 0x2E"
definition ELLIPSIS :: code_unit where "ELLIPSIS = 0x2026"

text \<open>
  \<open>String.prototype.split(sep)\<close> for a separator of one code unit, the only form the
  source uses (\<open>" "\<close>, \<open>"/"\<close>, \<open>"."\<close>): the string is cut at every occurrence of the
  separator, so the result is never empty and \<open>split(sep)[0]\<close> and
  \<open>split(sep).pop()\<close> are always defined.
\<close>

fun split :: "code_unit \<Rightarrow> jsstring \<Rightarrow> jsstring list" where
  "split sep [] = [[]]"
| "split sep (c # cs) =
     (if c = sep then [] # split sep cs
      else (case split sep cs of
              [] \<Rightarrow> [[c]]
            | seg # segs \<Rightarrow> (c # seg) # segs))"

text \<open>
  \<open>arr[0]\<close> and \<open>arr.pop()\<close>: \<open>undefined\<close> (\<open>None\<close>) on the empty array.
\<close>

definition first_elem :: "'a list \<Rightarrow> 'a option" where
  "first_elem xs = (case xs of [] \<Rightarrow> None | x # _ \<Rightarrow> Some x)"

definition pop :: "'a list \<Rightarrow> 'a option" where
  "pop xs = (if xs = [] then None else Some (last xs))"

text \<open>
  \<open>x || ""\<close> on a value that is a string or \<open>undefined\<close>: the empty string and
  \<open>undefined\<close> are falsy.
\<close>

definition or_empty :: "jsstring option \<Rightarrow> jsstring" where
  "or_empty v = (case v of None \<Rightarrow> [] | Some s \<Rightarrow> (if s = [] then [] else s))"

text \<open>
  The code units that \<open>String.prototype.trim\<close> strips: ECMAScript WhiteSpace
  (TAB, VT, FF, SP, NBSP, ZWNBSP and the category Zs) and LineTerminator
  (LF, CR, LS, PS).
\<close>

definition is_whitespace :: "code_unit \<Rightarrow> bool" where
  "is_whitespace c \<longleftrightarrow>
     c \<in> {0x09, 0x0A, 0x0B, 0x0C, 0x0D, 0x20, 0xA0, 0x1680,
          0x2000, 0x2001, 0x2002, 0x2003, 0x2004, 0x2005, 0x2006, 0x2007,
          0x2008, 0x2009, 0x200A, 0x2028, 0x2029, 0x202F, 0x205F, 0x3000, 0xFEFF}"

definition trim :: "jsstring \<Rightarrow> jsstring" where
  "trim s = rev (dropWhile is_whitespace (rev (dropWhile is_whitespace s)))"

text \<open>
  \<open>String.prototype.slice(start, end)\<close>: a negative index counts from the end, both
  indices are clamped to the string, and an omitted \<open>end\<close> is the length.
\<close>

definition slice_index :: "nat \<Rightarrow> int \<Rightarrow> nat" where
  "slice_index len i = (if i < 0 then nat (max (int len + i) 0) else min (nat i) len)"

definition slice :: "jsstring \<Rightarrow> int \<Rightarrow> int option \<Rightarrow> jsstring" where
  "slice s start end =
     (let len = length s;
          from = slice_index len start;
          to = (case end of None \<Rightarrow> len | Some e \<Rightarrow> slice_index len e)
      in take (to - from) (drop from s))"

section \<open>truncateHash\<close>

text \<open>
  \<^verbatim>\<open>const truncateHash = (hash?: string) =>
    hash && hash.length > 16 ? `${hash.slice(0, 8)}\u2026${hash.slice(-8)}` : hash;\<close>
  (the source has the character U+2026 itself in the template literal.)
  The argument is a string or \<open>undefined\<close> (\<open>None\<close>); \<open>undefined\<close> and the empty string
  are falsy, so \<open>hash && ...\<close> is falsy for them and the function returns \<open>hash\<close>.
\<close>

definition truthy_string :: "jsstring option \<Rightarrow> bool" where
  "truthy_string v = (case v of None \<Rightarrow> False | Some s \<Rightarrow> s \<noteq> [])"

definition truncateHash :: "jsstring option \<Rightarrow> jsstring option" where
  "truncateHash hash =
     (case hash of
        None \<Rightarrow> hash
      | Some h \<Rightarrow>
          (if truthy_string hash \<and> length h > 16
           then Some (slice h 0 (Some 8) @ [ELLIPSIS] @ slice h (- 8) None)
           else hash))"

section \<open>Numbers\<close>

text \<open>
  A JavaScript number is an IEEE 754 double: a finite value, which is a rational,
  \<open>NaN\<close>, or an infinity. The sign of zero is not modelled; nothing in the source
  observes it. The operations below are the ones the source applies to numbers.
\<close>

datatype number = Finite rat | NaN | PosInf | NegInf

fun num_abs :: "number \<Rightarrow> number" where
  "num_abs (Finite x) = Finite \<bar>x\<bar>"
| "num_abs NaN = NaN"
| "num_abs PosInf = PosInf"
| "num_abs NegInf = PosInf"

text \<open>\<open>a < b\<close> and \<open>a >= b\<close>: every comparison with \<open>NaN\<close> is false.\<close>

fun num_less :: "number \<Rightarrow> number \<Rightarrow> bool" where
  "num_less (Finite x) (Finite y) = (x < y)"
| "num_less NaN _ = False"
| "num_less _ NaN = False"
| "num_less NegInf NegInf = False"
| "num_less NegInf _ = True"
| "num_less PosInf _ = False"
| "num_less (Finite x) PosInf = True"
| "num_less (Finite x) NegInf = False"

fun num_ge :: "number \<Rightarrow> number \<Rightarrow> bool" where
  "num_ge (Finite x) (Finite y) = (x \<ge> y)"
| "num_ge NaN _ = False"
| "num_ge _ NaN = False"
| "num_ge PosInf _ = True"
| "num_ge NegInf NegInf = True"
| "num_ge NegInf _ = False"
| "num_ge (Finite x) PosInf = False"
| "num_ge (Finite x) NegInf = True"

text \<open>
  \<open>a / d\<close> for a positive finite divisor \<open>d\<close>. The source only divides by
  \<open>thresh = 1024\<close>, a power of two, and only values of magnitude at least 1024 (or
  non-finite ones), so the double division is exact and equals the rational one.
\<close>

fun num_div_pos :: "number \<Rightarrow> rat \<Rightarrow> number" where
  "num_div_pos (Finite x) d = Finite (x / d)"
| "num_div_pos NaN d = NaN"
| "num_div_pos PosInf d = PosInf"
| "num_div_pos NegInf d = NegInf"

text \<open>
  The Number value of a mathematical integer: exact up to \<open>2^53\<close> in magnitude, beyond
  that rounded to 53 significant bits (ties to even), and infinite from \<open>2^1024\<close> on.
\<close>

function bit_length :: "int \<Rightarrow> nat" where
  "bit_length n = (if n \<le> 0 then 0 else Suc (bit_length (n div 2)))"
  by pat_completeness auto
termination
  by (relation "measure nat") auto

declare bit_length.simps [simp del]

definition number_of_int :: "int \<Rightarrow> number" where
  "number_of_int n =
     (let a = \<bar>n\<bar> in
      if a \<le> 2 ^ 53 then Finite (of_int n)
      else
        let e = bit_length a - 53;
            q = a div 2 ^ e;
            r = a mod 2 ^ e;
            half = 2 ^ (e - 1);
            q' = (if r > half \<or> (r = half \<and> odd q) then q + 1 else q);
            m = q' * 2 ^ e
        in if m \<ge> 2 ^ 1024 then (if n < 0 then NegInf else PosInf)
           else Finite (of_int (sgn n * m)))"

text \<open>
  \<open>parseInt(str, 10)\<close>: leading white space is skipped, one sign is read, and the
  longest prefix of decimal digits is the value; no digit at all gives \<open>NaN\<close>.
  (For more than 20 digits an implementation may replace the digits after the 20th
  by zeros before rounding; the model rounds the exact value.)
\<close>

definition is_digit :: "code_unit \<Rightarrow> bool" where
  "is_digit c \<longleftrightarrow> 0x30 \<le> c \<and> c \<le> 0x39"

definition digit_value :: "code_unit \<Rightarrow> int" where
  "digit_value c = uint c - 48"

definition decimal_value :: "jsstring \<Rightarrow> int" where
  "decimal_value z = foldl (\<lambda>acc c. 10 * acc + digit_value c) 0 z"

definition parseInt10 :: "jsstring \<Rightarrow> number" where
  "parseInt10 str =
     (let s = dropWhile is_whitespace str;
          negative = (s \<noteq> [] \<and> hd s = 0x2D);
          s' = (if s \<noteq> [] \<and> (hd s = 0x2B \<or> hd s = 0x2D) then tl s else s);
          z = takeWhile is_digit s'
      in if z = [] then NaN
         else number_of_int ((if negative then - 1 else 1) * decimal_value z))"

text \<open>
  What the specification calls a non-negative integer: a finite number with an
  integral, non-negative value.
\<close>

fun is_nonneg_integer :: "number \<Rightarrow> bool" where
  "is_nonneg_integer (Finite x) = (x \<ge> 0 \<and> x = of_int \<lfloor>x\<rfloor>)"
| "is_nonneg_integer _ = False"

section \<open>humanFileSize\<close>

text \<open>
  \<^verbatim>\<open>const humanFileSize = (bytes: number) => {
    const thresh = 1024;
    if (Math.abs(bytes) < thresh) return bytes + " B";
    const units = ["KiB", "MiB", "GiB", "TiB", "PiB", "EiB"];
    let u = -1;
    do {
        bytes /= thresh;
        ++u;
    } while (Math.abs(bytes) >= thresh && u < units.length - 1);
    return bytes.toFixed(1) + " " + units[u];
  };\<close>
  The three copies of the function differ only in writing the concatenations as
  template literals. Number-to-string conversion and \<open>toFixed(1)\<close> are host
  functions and are parameters of the model.
\<close>

definition thresh :: rat where "thresh = 1024"

definition units :: "jsstring list" where
  "units = [js ''KiB'', js ''MiB'', js ''GiB'', js ''TiB'', js ''PiB'', js ''EiB'']"

text \<open>
  The \<open>do ... while\<close> loop on the pair \<open>(bytes, u)\<close>: the body runs, then the condition
  decides whether it runs again.
\<close>

function divide_loop :: "number \<Rightarrow> int \<Rightarrow> number \<times> int" where
  "divide_loop bytes u =
     (let bytes' = num_div_pos bytes thresh;
          u' = u + 1
      in if num_ge (num_abs bytes') (Finite thresh) \<and> u' < int (length units) - 1
         then divide_loop bytes' u'
         else (bytes', u'))"
  by pat_completeness auto
termination
  by (relation "measure (\<lambda>(bytes, u). nat (int (length units) - 1 - u))") auto

declare divide_loop.simps [simp del]

text \<open>The same loop, counting how many times its body runs.\<close>

function divide_loop_iterations :: "number \<Rightarrow> int \<Rightarrow> nat" where
  "divide_loop_iterations bytes u =
     (let bytes' = num_div_pos bytes thresh;
          u' = u + 1
      in if num_ge (num_abs bytes') (Finite thresh) \<and> u' < int (length units) - 1
         then Suc (divide_loop_iterations bytes' u')
         else 1)"
  by pat_completeness auto
termination
  by (relation "measure (\<lambda>(bytes, u). nat (int (length units) - 1 - u))") auto

declare divide_loop_iterations.simps [simp del]

text \<open>\<open>units[u]\<close>: \<open>undefined\<close> outside the array, which concatenates as "undefined".\<close>

definition unit_at :: "int \<Rightarrow> jsstring option" where
  "unit_at u = (if 0 \<le> u \<and> u < int (length units) then Some (units ! nat u) else None)"

definition string_of_opt :: "jsstring option \<Rightarrow> jsstring" where
  "string_of_opt v = (case v of None \<Rightarrow> js ''undefined'' | Some s \<Rightarrow> s)"

definition humanFileSize ::
  "(number \<Rightarrow> jsstring) \<Rightarrow> (number \<Rightarrow> nat \<Rightarrow> jsstring) \<Rightarrow> number \<Rightarrow> jsstring" where
  "humanFileSize toString toFixed bytes =
     (if num_less (num_abs bytes) (Finite thresh) then toString bytes @ js '' B''
      else
        let (bytes', u) = divide_loop bytes (- 1)
        in toFixed bytes' 1 @ js '' '' @ string_of_opt (unit_at u))"

section \<open>Manifests and file records\<close>

text \<open>
  \<open>PlanetMetadata.size\<close> is declared \<open>string | number\<close>. \<open>FileItem.size\<close> is declared
  \<open>number\<close>, but the loaders of the category-keyed manifest copy the entry through a
  cast to \<open>any\<close>, so at run time the field holds whatever the manifest had; the
  model gives both fields the union type. The field is called \<open>size'\<close> here.
\<close>

datatype str_or_num = Str jsstring | Num number

text \<open>An element of the array-shaped manifest \<open>planet.metadata\<close>, as declared.\<close>

record PlanetMetadata =
  created :: number
  deprecated :: bool
  deprecation_reason :: jsstring
  format :: jsstring
  remote_filename :: jsstring
  remote_path :: jsstring
  remote_version :: jsstring
  size' :: str_or_num
  tags :: "jsstring list"

text \<open>
  An entry of the category-keyed manifest \<open>metadata.json\<close>: the fields the loaders
  and the table read. The object is the list of its entries in the order
  \<open>Object.entries\<close> enumerates them.
\<close>

record CategoryEntry =
  url :: jsstring
  size' :: str_or_num
  created :: number

type_synonym CategoryManifest = "(jsstring \<times> CategoryEntry list) list"

text \<open>
  \<open>FileItem\<close>, with the optional fields of the three copies of the interface;
  an absent optional field is \<open>None\<close>.
\<close>

record FileItem =
  created :: number
  deprecated :: "bool option"
  deprecation_reason :: "jsstring option"
  filename :: jsstring
  kind :: jsstring
  size' :: str_or_num
  sha256 :: "jsstring option"
  url :: jsstring
  version :: "jsstring option"

subsection \<open>Normalisation of the array-shaped manifest\<close>

text \<open>
  \<^verbatim>\<open>const items: FileItem[] = data.map(item => {
    const url = `https://download.openplanetdata.com/${item.remote_path}/v${item.remote_version}/${item.remote_filename}`;
    const filename = item.remote_filename;
    const kind = item.format.toUpperCase();
    const size = typeof item.size === 'string' ? parseInt(item.size, 10) : item.size;
    return { url, size, created: item.created, kind, filename,
             deprecated: item.deprecated, deprecation_reason: item.deprecation_reason,
             version: item.remote_version };
  });\<close>
  \<open>toUpperCase\<close> is a host function and a parameter.
\<close>

definition coerce_size :: "str_or_num \<Rightarrow> number" where
  "coerce_size sz = (case sz of Str s \<Rightarrow> parseInt10 s | Num n \<Rightarrow> n)"

definition planet_item :: "(jsstring \<Rightarrow> jsstring) \<Rightarrow> PlanetMetadata \<Rightarrow> FileItem" where
  "planet_item toUpperCase item =
     (let url = js ''https://download.openplanetdata.com/'' @ remote_path item
                @ js ''/v'' @ remote_version item @ js ''/'' @ remote_filename item;
          filename = remote_filename item;
          kind = toUpperCase (format item);
          size = coerce_size (PlanetMetadata.size' item)
      in \<lparr> FileItem.created = PlanetMetadata.created item,
           deprecated = Some (PlanetMetadata.deprecated item),
           deprecation_reason = Some (PlanetMetadata.deprecation_reason item),
           filename = filename,
           kind = kind,
           size' = Num size,
           sha256 = None,
           url = url,
           version = Some (remote_version item) \<rparr>)"

definition planet_items :: "(jsstring \<Rightarrow> jsstring) \<Rightarrow> PlanetMetadata list \<Rightarrow> FileItem list" where
  "planet_items toUpperCase data = map (planet_item toUpperCase) data"

subsection \<open>Normalisation of the category-keyed manifest\<close>

text \<open>
  \<^verbatim>\<open>const items: FileItem[] = [];
  Object.entries(data).forEach(([kind, arr]) => {
    (arr as any[]).forEach((item) => {
      const filename = (item.url as string).split("/").pop() || "";
      items.push({ ...(item as any), kind, filename });
    });
  });\<close>
  The spread copies \<open>url\<close>, \<open>size\<close> and \<open>created\<close> as they are. It copies every
  other property of the entry too; none of them is read before \<open>kind\<close> and
  \<open>filename\<close> are overwritten here and \<open>sha256\<close> by the enrichment, so the model
  leaves them out.
\<close>

definition category_item :: "jsstring \<Rightarrow> CategoryEntry \<Rightarrow> FileItem" where
  "category_item k item =
     (let filename = or_empty (pop (split SLASH (CategoryEntry.url item)))
      in \<lparr> FileItem.created = CategoryEntry.created item,
           deprecated = None,
           deprecation_reason = None,
           filename = filename,
           kind = k,
           size' = CategoryEntry.size' item,
           sha256 = None,
           url = CategoryEntry.url item,
           version = None \<rparr>)"

definition push :: "'a list \<Rightarrow> 'a \<Rightarrow> 'a list" where
  "push xs x = xs @ [x]"

definition category_items :: "CategoryManifest \<Rightarrow> FileItem list" where
  "category_items data =
     foldl (\<lambda>items (k, arr). foldl (\<lambda>items item. push items (category_item k item)) items arr)
           [] data"

section \<open>Checksum enrichment\<close>

text \<open>
  The outcome of a \<open>fetch\<close> followed by reading the body with \<open>r.text()\<close> or
  \<open>res.json()\<close>: the request fails (the promise of \<open>fetch\<close> rejects), or a response
  with some status arrives whose body either reads as a value or fails to
  (\<open>None\<close>: the body promise rejects; for \<open>json()\<close> this includes malformed JSON).
  The source never looks at the status.
\<close>

datatype 'a fetch_result = NetworkError | Response nat "'a option"

datatype error = FetchRejected | BodyRejected | TypeError

definition fetch_then :: "'a fetch_result \<Rightarrow> error + 'a" where
  "fetch_then r =
     (case r of
        NetworkError \<Rightarrow> Inl FetchRejected
      | Response status None \<Rightarrow> Inl BodyRejected
      | Response status (Some v) \<Rightarrow> Inr v)"

definition NA :: jsstring where "NA = js ''N/A''"

text \<open>
  \<^verbatim>\<open>items.map(async item => {
    try {
      const text = await fetch(`${item.url}.sha256`).then(r => r.text());
      return { ...item, sha256: text.split(" ")[0].trim() };
    } catch {
      return { ...item, sha256: "N/A" };
    }
  })\<close>
  \<open>sha256_of_text\<close> is \<open>text.split(" ")[0].trim()\<close>, \<open>with_hash_try\<close> the body of the
  \<open>try\<close>, \<open>with_hash_item\<close> the whole function.
\<close>

definition sha256_of_text :: "jsstring \<Rightarrow> error + jsstring" where
  "sha256_of_text text =
     (case first_elem (split SPACE text) of
        None \<Rightarrow> Inl TypeError
      | Some tok \<Rightarrow> Inr (trim tok))"

definition with_hash_try :: "(jsstring \<Rightarrow> jsstring fetch_result) \<Rightarrow> FileItem \<Rightarrow> error + FileItem" where
  "with_hash_try fetch item =
     (case fetch_then (fetch (FileItem.url item @ js ''.sha256'')) of
        Inl e \<Rightarrow> Inl e
      | Inr text \<Rightarrow>
          (case sha256_of_text text of
             Inl e \<Rightarrow> Inl e
           | Inr digest \<Rightarrow> Inr (item\<lparr>sha256 := Some digest\<rparr>)))"

definition with_hash_item :: "(jsstring \<Rightarrow> jsstring fetch_result) \<Rightarrow> FileItem \<Rightarrow> error + FileItem" where
  "with_hash_item fetch item =
     (case with_hash_try fetch item of
        Inr r \<Rightarrow> Inr r
      | Inl e \<Rightarrow> Inr (item\<lparr>sha256 := Some NA\<rparr>))"

text \<open>
  \<open>Promise.all\<close>: the results in the order of the promises, or a rejection if one of
  them rejects.
\<close>

fun promise_all :: "(error + 'a) list \<Rightarrow> error + 'a list" where
  "promise_all [] = Inr []"
| "promise_all (Inl e # ps) = Inl e"
| "promise_all (Inr v # ps) = (case promise_all ps of Inl e \<Rightarrow> Inl e | Inr vs \<Rightarrow> Inr (v # vs))"

definition withHash :: "(jsstring \<Rightarrow> jsstring fetch_result) \<Rightarrow> FileItem list \<Rightarrow> error + FileItem list" where
  "withHash fetch items = promise_all (map (with_hash_item fetch) items)"

section \<open>Sorting by extension\<close>

text \<open>
  \<^verbatim>\<open>const sorted = withHash.sort((a, b) => {
    const extA = a.filename.split('.').pop() || '';
    const extB = b.filename.split('.').pop() || '';
    return extA.localeCompare(extB);
  });\<close>
  \<open>localeCompare\<close> depends on the collation of the host's locale and is a parameter.
  \<open>Array.prototype.sort\<close> is stable, and for a consistent comparator (reflexive,
  antisymmetric in its sign, transitive) its result is the one stable sorted
  arrangement, which insertion from the right computes.
\<close>

definition file_ext :: "FileItem \<Rightarrow> jsstring" where
  "file_ext f = or_empty (pop (split DOT (filename f)))"

definition by_extension :: "(jsstring \<Rightarrow> jsstring \<Rightarrow> int) \<Rightarrow> FileItem \<Rightarrow> FileItem \<Rightarrow> int" where
  "by_extension localeCompare a b = localeCompare (file_ext a) (file_ext b)"

fun insert_sorted :: "('a \<Rightarrow> 'a \<Rightarrow> int) \<Rightarrow> 'a \<Rightarrow> 'a list \<Rightarrow> 'a list" where
  "insert_sorted cmp x [] = [x]"
| "insert_sorted cmp x (y # ys) =
     (if cmp x y \<le> 0 then x # y # ys else y # insert_sorted cmp x ys)"

definition array_sort :: "('a \<Rightarrow> 'a \<Rightarrow> int) \<Rightarrow> 'a list \<Rightarrow> 'a list" where
  "array_sort cmp xs = foldr (insert_sorted cmp) xs []"

definition consistent_comparator :: "('a \<Rightarrow> 'a \<Rightarrow> int) \<Rightarrow> bool" where
  "consistent_comparator cmp \<longleftrightarrow>
     (\<forall>a. cmp a a = 0) \<and>
     (\<forall>a b. (cmp a b < 0) = (cmp b a > 0)) \<and>
     (\<forall>a b c. cmp a b \<le> 0 \<and> cmp b c \<le> 0 \<longrightarrow> cmp a c \<le> 0)"

definition sorted_by :: "('a \<Rightarrow> 'a \<Rightarrow> int) \<Rightarrow> 'a list \<Rightarrow> bool" where
  "sorted_by cmp xs = sorted_wrt (\<lambda>a b. cmp a b \<le> 0) xs"

text \<open>
  Comparison of strings by code units, the order the specification calls ascending
  lexicographic; one consistent comparator.
\<close>

definition code_unit_compare :: "jsstring \<Rightarrow> jsstring \<Rightarrow> int" where
  "code_unit_compare a b = (if a < b then - 1 else if a = b then 0 else 1)"

text \<open>
  A collation that compares ASCII letters without regard to case, as the first level
  of the host collations behind \<open>localeCompare\<close> does: \<open>"gol".localeCompare("PBF")\<close> is
  negative, although \<open>"PBF"\<close> precedes \<open>"gol"\<close> by code units.
\<close>

definition to_lower :: "code_unit \<Rightarrow> code_unit" where
  "to_lower c = (if 0x41 \<le> c \<and> c \<le> 0x5A then c + 0x20 else c)"

definition caseless_compare :: "jsstring \<Rightarrow> jsstring \<Rightarrow> int" where
  "caseless_compare a b = code_unit_compare (map to_lower a) (map to_lower b)"

section \<open>The page's load effect\<close>

text \<open>
  The state the effect writes: \<open>files\<close> (initially \<open>[]\<close>) and the loading flag
  (\<open>loading\<close> in \<open>page.tsx\<close>, \<open>osmLoading\<close> in the later pages; initially \<open>true\<close>).
  \<^verbatim>\<open>try { ...; setFiles(result); } finally { setLoading(false); }\<close>
  has no \<open>catch\<close>: an exception skips \<open>setFiles\<close>, the \<open>finally\<close> block still runs, and
  the exception leaves the effect as the second component of the result.
\<close>

record PageState =
  files :: "FileItem list"
  loading :: bool

definition initial_state :: PageState where
  "initial_state = \<lparr> files = [], loading = True \<rparr>"

definition try_finally :: "error + FileItem list \<Rightarrow> PageState \<Rightarrow> PageState \<times> error option" where
  "try_finally body st =
     (case body of
        Inr result \<Rightarrow> (st\<lparr>files := result, loading := False\<rparr>, None)
      | Inl e \<Rightarrow> (st\<lparr>loading := False\<rparr>, Some e))"

text \<open>\<open>src/app/page.tsx\<close>: category-keyed manifest, enrichment, no sort.\<close>

definition Page_effect ::
  "CategoryManifest fetch_result \<Rightarrow> (jsstring \<Rightarrow> jsstring fetch_result) \<Rightarrow> PageState
   \<Rightarrow> PageState \<times> error option" where
  "Page_effect manifest fetch st =
     try_finally
       (case fetch_then manifest of
          Inl e \<Rightarrow> Inl e
        | Inr data \<Rightarrow> withHash fetch (category_items data))
       st"

text \<open>
  The page with \<open>planet.metadata\<close> (first page of \<open>src/unnamed/part_000\<close>):
  array-shaped manifest, enrichment, then the sort.
\<close>

definition Page_planet_effect ::
  "(jsstring \<Rightarrow> jsstring) \<Rightarrow> (jsstring \<Rightarrow> jsstring \<Rightarrow> int) \<Rightarrow>
   PlanetMetadata list fetch_result \<Rightarrow> (jsstring \<Rightarrow> jsstring fetch_result) \<Rightarrow> PageState
   \<Rightarrow> PageState \<times> error option" where
  "Page_planet_effect toUpperCase localeCompare manifest fetch st =
     try_finally
       (case fetch_then manifest of
          Inl e \<Rightarrow> Inl e
        | Inr data \<Rightarrow>
            (case withHash fetch (planet_items toUpperCase data) of
               Inl e \<Rightarrow> Inl e
             | Inr with_hash \<Rightarrow> Inr (array_sort (by_extension localeCompare) with_hash)))
       st"

text \<open>
  The page with \<open>metadata.json\<close> and the sort (second page of
  \<open>src/unnamed/part_000\<close>): category-keyed manifest, enrichment, then the sort.
\<close>

definition Page_sorted_effect ::
  "(jsstring \<Rightarrow> jsstring \<Rightarrow> int) \<Rightarrow>
   CategoryManifest fetch_result \<Rightarrow> (jsstring \<Rightarrow> jsstring fetch_result) \<Rightarrow> PageState
   \<Rightarrow> PageState \<times> error option" where
  "Page_sorted_effect localeCompare manifest fetch st =
     try_finally
       (case fetch_then manifest of
          Inl e \<Rightarrow> Inl e
        | Inr data \<Rightarrow>
            (case withHash fetch (category_items data) of
               Inl e \<Rightarrow> Inl e
             | Inr with_hash \<Rightarrow> Inr (array_sort (by_extension localeCompare) with_hash)))
       st"

text \<open>
  The companion requests in the order in which they are issued.
  \<open>items.map(async item => ...)\<close> calls the function on the items in order, and each
  call runs up to its first \<open>await\<close>, that is, through the call of \<open>fetch\<close>: the
  requests go out in the order of \<open>items\<close>, before any response is handled and before
  the sort. \<open>Page_requests\<close> is the sequence for the two pages with the category-keyed
  manifest, \<open>Page_planet_requests\<close> the one for the page with \<open>planet.metadata\<close>; a
  failed manifest request issues none.
\<close>

definition issued_requests :: "FileItem list \<Rightarrow> jsstring list" where
  "issued_requests items = map (\<lambda>item. FileItem.url item @ js ''.sha256'') items"

definition Page_requests :: "CategoryManifest fetch_result \<Rightarrow> jsstring list" where
  "Page_requests manifest =
     (case fetch_then manifest of
        Inl e \<Rightarrow> []
      | Inr data \<Rightarrow> issued_requests (category_items data))"

definition Page_planet_requests ::
  "(jsstring \<Rightarrow> jsstring) \<Rightarrow> PlanetMetadata list fetch_result \<Rightarrow> jsstring list" where
  "Page_planet_requests toUpperCase manifest =
     (case fetch_then manifest of
        Inl e \<Rightarrow> []
      | Inr data \<Rightarrow> issued_requests (planet_items toUpperCase data))"

section \<open>Notions of the specification\<close>

text \<open>
  A well-formed lowercase hex digest: a non-empty string of the digits \<open>0-9\<close> and
  \<open>a-f\<close>.
\<close>

definition is_lower_hex :: "code_unit \<Rightarrow> bool" where
  "is_lower_hex c \<longleftrightarrow> (0x30 \<le> c \<and> c \<le> 0x39) \<or> (0x61 \<le> c \<and> c \<le> 0x66)"

definition is_hex_digest :: "jsstring \<Rightarrow> bool" where
  "is_hex_digest s \<longleftrightarrow> s \<noteq> [] \<and> list_all is_lower_hex s"

text \<open>
  The first token of a text read as white-space-separated: leading white space is
  skipped and the token runs up to the next white space.
\<close>

definition first_token :: "jsstring \<Rightarrow> jsstring" where
  "first_token text = takeWhile (\<lambda>c. \<not> is_whitespace c) (dropWhile is_whitespace text)"

text \<open>A \<open>size\<close> field that holds a non-negative integer: a number, and such a one.\<close>

definition size_is_nonneg_integer :: "str_or_num \<Rightarrow> bool" where
  "size_is_nonneg_integer sz = (case sz of Num n \<Rightarrow> is_nonneg_integer n | Str s \<Rightarrow> False)"

text \<open>The number of entries of a category-keyed manifest, over all categories.\<close>

definition entry_count :: "CategoryManifest \<Rightarrow> nat" where
  "entry_count data = sum_list (map (\<lambda>(k, arr). length arr) data)"

section \<open>Example inputs\<close>

text \<open>
  The manifest of the specification's scenario,
  \<^verbatim>\<open>{"pbf":[{"url":"https://x/a.pbf","size":"100","created":1700000000}]}\<close>,
  and the record the category-keyed loaders build from it.
\<close>

definition scenario_entry :: CategoryEntry where
  "scenario_entry =
     \<lparr> CategoryEntry.url = js ''https://x/a.pbf'',
       CategoryEntry.size' = Str (js ''100''),
       CategoryEntry.created = Finite 1700000000 \<rparr>"

definition scenario_manifest :: CategoryManifest where
  "scenario_manifest = [(js ''pbf'', [scenario_entry])]"

definition scenario_file :: FileItem where
  "scenario_file =
     \<lparr> FileItem.created = Finite 1700000000,
       deprecated = None,
       deprecation_reason = None,
       filename = js ''a.pbf'',
       kind = js ''pbf'',
       size' = Str (js ''100''),
       sha256 = None,
       url = js ''https://x/a.pbf'',
       version = None \<rparr>"

text \<open>A server that answers every request with status 404 and the body \<open>Not Found\<close>.\<close>

definition not_found_fetch :: "jsstring \<Rightarrow> jsstring fetch_result" where
  "not_found_fetch u = Response 404 (Some (js ''Not Found''))"

text \<open>A server that answers every request with status 200 and an empty body.\<close>

definition empty_body_fetch :: "jsstring \<Rightarrow> jsstring fetch_result" where
  "empty_body_fetch u = Response 200 (Some [])"

text \<open>A network on which every request fails.\<close>

definition offline_fetch :: "jsstring \<Rightarrow> jsstring fetch_result" where
  "offline_fetch u = NetworkError"

text \<open>
  A second entry, a manifest with both entries under two categories, and a network
  on which the companion of \<open>a.pbf\<close> fails while every other request is answered
  with a checksum line.
\<close>

definition gol_entry :: CategoryEntry where
  "gol_entry =
     \<lparr> CategoryEntry.url = js ''https://x/b.gol'',
       CategoryEntry.size' = Num (Finite 2048),
       CategoryEntry.created = Finite 1700000000 \<rparr>"

definition two_kind_manifest :: CategoryManifest where
  "two_kind_manifest = [(js ''pbf'', [scenario_entry]), (js ''gol'', [gol_entry])]"

definition gol_file :: FileItem where
  "gol_file =
     \<lparr> FileItem.created = Finite 1700000000,
       deprecated = None,
       deprecation_reason = None,
       filename = js ''b.gol'',
       kind = js ''gol'',
       size' = Num (Finite 2048),
       sha256 = None,
       url = js ''https://x/b.gol'',
       version = None \<rparr>"

definition flaky_fetch :: "jsstring \<Rightarrow> jsstring fetch_result" where
  "flaky_fetch u =
     (if u = js ''https://x/a.pbf.sha256'' then NetworkError
      else Response 200 (Some (js ''deadbeef  b.gol'' @ [0x0A])))"

text \<open>Responses that deliver the example manifest, and an entry of \<open>planet.metadata\<close>.\<close>

definition two_kind_response :: "CategoryManifest fetch_result" where
  "two_kind_response = Response 200 (Some two_kind_manifest)"

definition planet_entry :: PlanetMetadata where
  "planet_entry =
     \<lparr> PlanetMetadata.created = Finite 1700000000,
       PlanetMetadata.deprecated = False,
       PlanetMetadata.deprecation_reason = [],
       format = js ''pbf'',
       remote_filename = js ''planet-latest.osm.pbf'',
       remote_path = js ''osm/planet/pbf'',
       remote_version = js ''1'',
       PlanetMetadata.size' = Str (js ''100''),
       tags = [] \<rparr>"

definition planet_response :: "PlanetMetadata list fetch_result" where
  "planet_response = Response 200 (Some [planet_entry])"

text \<open>
  An entry whose extension is written in capitals, with its record and a manifest
  that lists it before the \<open>gol\<close> entry; and a response with status 500 whose body is
  the two-category manifest.
\<close>

definition upper_entry :: CategoryEntry where
  "upper_entry =
     \<lparr> CategoryEntry.url = js ''https://x/a.PBF'',
       CategoryEntry.size' = Num (Finite 4096),
       CategoryEntry.created = Finite 1700000000 \<rparr>"

definition upper_file :: FileItem where
  "upper_file =
     \<lparr> FileItem.created = Finite 1700000000,
       deprecated = None,
       deprecation_reason = None,
       filename = js ''a.PBF'',
       kind = js ''pbf'',
       size' = Num (Finite 4096),
       sha256 = None,
       url = js ''https://x/a.PBF'',
       version = None \<rparr>"

definition upper_response :: "CategoryManifest fetch_result" where
  "upper_response = Response 200 (Some [(js ''pbf'', [upper_entry]), (js ''gol'', [gol_entry])])"

definition server_error_response :: "CategoryManifest fetch_result" where
  "server_error_response = Response 500 (Some two_kind_manifest)"

section \<open>Properties of the formatting helpers\<close>

lemma slice_prefix: "8 \<le> length h \<Longrightarrow> slice h 0 (Some 8) = take 8 h"
  by (simp add: slice_def slice_index_def)

lemma slice_suffix: "8 \<le> length h \<Longrightarrow> slice h (- 8) None = drop (length h - 8) h"
  by (simp add: slice_def slice_index_def Let_def nat_diff_distrib' max_def)

text \<open>
  Claim C10. \<open>truncateHash\<close> returns \<open>undefined\<close> on \<open>undefined\<close> and returns every hash of
  at most 16 code units unchanged; a longer hash becomes its first 8 code units, the
  ellipsis U+2026 and its last 8 code units, 17 code units in all.
\<close>

theorem truncateHash_spec:
  "truncateHash None = None \<and>
   (length h \<le> 16 \<longrightarrow> truncateHash (Some h) = Some h) \<and>
   (length h > 16 \<longrightarrow>
      truncateHash (Some h) = Some (take 8 h @ [ELLIPSIS] @ drop (length h - 8) h) \<and>
      length (the (truncateHash (Some h))) = 17)"
proof (intro conjI impI)
  show "truncateHash None = None"
    by (simp add: truncateHash_def truthy_string_def)
next
  assume "length h \<le> 16"
  then show "truncateHash (Some h) = Some h"
    by (simp add: truncateHash_def)
next
  assume long: "length h > 16"
  then have "h \<noteq> []" and "8 \<le> length h" by auto
  then show "truncateHash (Some h) = Some (take 8 h @ [ELLIPSIS] @ drop (length h - 8) h)"
    using long by (simp add: truncateHash_def truthy_string_def slice_prefix slice_suffix)
  then show "length (the (truncateHash (Some h))) = 17"
    using long by simp
qed

theorem truncateHash_spec_witness:
  "truncateHash (Some (js ''0123456789abcdefXYZ''))
     = Some (js ''01234567'' @ [ELLIPSIS] @ js ''bcdefXYZ'') \<and>
   length (the (truncateHash (Some (js ''0123456789abcdefXYZ'')))) = 17 \<and>
   truncateHash (Some (js ''0123456789abcdef'')) = Some (js ''0123456789abcdef'')"
  using truncateHash_spec [of "js ''0123456789abcdefXYZ''"]
    truncateHash_spec [of "js ''0123456789abcdef''"]
  by (simp add: js_def)

text \<open>
  The loop of \<open>humanFileSize\<close>, entered with \<open>u < 5\<close>: it leaves with \<open>u\<close> larger and at
  most 5, it keeps a finite value finite, and its body has run once for each
  increment of \<open>u\<close>.
\<close>

lemma divide_loop_result:
  "u < 5 \<Longrightarrow> divide_loop b u = (b', u') \<Longrightarrow>
     u < u' \<and> u' \<le> 5 \<and> ((\<exists>x. b = Finite x) \<longrightarrow> (\<exists>y. b' = Finite y)) \<and>
     divide_loop_iterations b u = nat (u' - u)"
proof (induction b u rule: divide_loop.induct)
  case (1 bytes u)
  let ?b = "num_div_pos bytes thresh"
  have fin: "(\<exists>x. bytes = Finite x) \<longrightarrow> (\<exists>y. ?b = Finite y)"
    by auto
  show ?case
  proof (cases "num_ge (num_abs ?b) (Finite thresh) \<and> u + 1 < int (length units) - 1")
    case True
    then have rec: "divide_loop bytes u = divide_loop ?b (u + 1)"
      and it: "divide_loop_iterations bytes u = Suc (divide_loop_iterations ?b (u + 1))"
      by (simp_all add: divide_loop.simps [of bytes u] divide_loop_iterations.simps [of bytes u])
    from True have small: "u + 1 < 5" by (simp add: units_def)
    from rec "1.prems" have "divide_loop ?b (u + 1) = (b', u')" by simp
    with "1.IH" [OF refl refl True small]
    have "u + 1 < u' \<and> u' \<le> 5 \<and> ((\<exists>x. ?b = Finite x) \<longrightarrow> (\<exists>y. b' = Finite y)) \<and>
          divide_loop_iterations ?b (u + 1) = nat (u' - (u + 1))"
      by simp
    with it fin show ?thesis by auto
  next
    case False
    then have "divide_loop bytes u = (?b, u + 1)"
      and "divide_loop_iterations bytes u = 1"
      by (auto simp add: divide_loop.simps [of bytes u] divide_loop_iterations.simps [of bytes u])
    with "1.prems" fin show ?thesis by auto
  qed
qed

text \<open>
  Claim C9. For every finite byte count the loop of \<open>humanFileSize\<close> ends after at most
  6 runs of its body, with \<open>u\<close> an index into \<open>units\<close>; the result is the number and
  \<open>" B"\<close> for a magnitude below 1024, and otherwise the scaled number, a space and
  one of the six units \<open>KiB\<close> to \<open>EiB\<close>.
\<close>

theorem humanFileSize_units:
  "divide_loop_iterations (Finite x) (- 1) \<le> 6 \<and>
   (if \<bar>x\<bar> < 1024
    then humanFileSize toString toFixed (Finite x) = toString (Finite x) @ js '' B''
    else \<exists>y u. divide_loop (Finite x) (- 1) = (Finite y, u) \<and>
           0 \<le> u \<and> u < int (length units) \<and> units ! nat u \<in> set units \<and>
           divide_loop_iterations (Finite x) (- 1) = nat (u + 1) \<and>
           humanFileSize toString toFixed (Finite x)
             = toFixed (Finite y) 1 @ js '' '' @ units ! nat u)"
proof -
  obtain b' u where loop: "divide_loop (Finite x) (- 1) = (b', u)"
    by (cases "divide_loop (Finite x) (- 1)")
  from divide_loop_result [OF _ loop]
  have u: "- 1 < u" "u \<le> 5" and fin: "\<exists>y. b' = Finite y"
    and it: "divide_loop_iterations (Finite x) (- 1) = nat (u + 1)"
    by auto
  from fin obtain y where b': "b' = Finite y" ..
  have bound: "divide_loop_iterations (Finite x) (- 1) \<le> 6"
    using it u by simp
  have len: "length units = 6"
    by (simp add: units_def)
  then have "nat u < length units"
    using u by simp
  then have mem: "units ! nat u \<in> set units"
    by (rule nth_mem)
  show ?thesis
  proof (cases "\<bar>x\<bar> < 1024")
    case True
    then show ?thesis using bound
      by (simp add: humanFileSize_def thresh_def)
  next
    case False
    have "humanFileSize toString toFixed (Finite x)
            = toFixed (Finite y) 1 @ js '' '' @ units ! nat u"
      using False loop b' u len
      by (simp add: humanFileSize_def thresh_def unit_at_def string_of_opt_def)
    with False bound loop b' u it mem len show ?thesis
      by auto
  qed
qed

theorem humanFileSize_units_witness:
  "divide_loop_iterations (Finite (2 ^ 80)) (- 1) \<le> 6 \<and>
   (\<exists>y u. divide_loop (Finite (2 ^ 80)) (- 1) = (Finite y, u) \<and>
           0 \<le> u \<and> u < int (length units) \<and> units ! nat u \<in> set units \<and>
           divide_loop_iterations (Finite (2 ^ 80)) (- 1) = nat (u + 1) \<and>
           humanFileSize (\<lambda>n. []) (\<lambda>n d. js ''1048576.0'') (Finite (2 ^ 80))
             = js ''1048576.0'' @ js '' '' @ units ! nat u)"
  using humanFileSize_units [of "2 ^ 80" "\<lambda>n. []" "\<lambda>n d. js ''1048576.0''"] by simp

section \<open>Properties of the checksum parsing\<close>

lemma split_first: "first_elem (split sep s) = Some (takeWhile (\<lambda>c. c \<noteq> sep) s)"
  by (induction s) (auto simp add: first_elem_def split: list.splits)

lemma split_not_empty: "split sep s \<noteq> []"
  using split_first [of sep s] by (auto simp add: first_elem_def)

lemma sha256_of_text_eq: "sha256_of_text text = Inr (trim (takeWhile (\<lambda>c. c \<noteq> SPACE) text))"
  by (simp add: sha256_of_text_def split_first)

lemma space_is_whitespace: "is_whitespace SPACE"
  by (simp add: is_whitespace_def SPACE_def)

lemma dropWhile_all: "\<forall>c\<in>set w. P c \<Longrightarrow> dropWhile P w = []"
  by (simp add: dropWhile_eq_Nil_conv)

lemma dropWhile_none: "\<forall>c\<in>set d. \<not> P c \<Longrightarrow> dropWhile P d = d"
  by (cases d) auto

lemma trim_digest:
  assumes d: "\<forall>c\<in>set d. \<not> is_whitespace c" and w: "\<forall>c\<in>set w. is_whitespace c"
  shows "trim (d @ w) = d"
proof (cases "d = []")
  case True
  with w show ?thesis by (simp add: trim_def dropWhile_all)
next
  case False
  then have front: "dropWhile is_whitespace (d @ w) = d @ w"
    using d by (cases d) auto
  have "dropWhile is_whitespace (rev w @ rev d) = dropWhile is_whitespace (rev d)"
    using w by (simp add: dropWhile_append)
  also have "\<dots> = rev d"
    using d by (intro dropWhile_none) simp
  finally show ?thesis using front by (simp add: trim_def)
qed

lemma takeWhile_digest:
  assumes d: "\<forall>c\<in>set d. \<not> is_whitespace c" and w: "\<forall>c\<in>set w. is_whitespace c"
  shows "\<exists>w'. (\<forall>c\<in>set w'. is_whitespace c) \<and>
           takeWhile (\<lambda>c. c \<noteq> SPACE) (d @ w) = d @ w' \<and>
           takeWhile (\<lambda>c. c \<noteq> SPACE) (d @ w @ SPACE # rest) = d @ w'"
proof -
  have nosp: "\<forall>c\<in>set d. c \<noteq> SPACE"
    using d space_is_whitespace by auto
  let ?w' = "takeWhile (\<lambda>c. c \<noteq> SPACE) w"
  have "\<forall>c\<in>set ?w'. is_whitespace c"
    using w by (meson set_takeWhileD)
  moreover have "takeWhile (\<lambda>c. c \<noteq> SPACE) (d @ w) = d @ ?w'"
    using nosp by (simp add: takeWhile_append)
  moreover have "takeWhile (\<lambda>c. c \<noteq> SPACE) (w @ SPACE # rest) = ?w'"
    by (induction w) auto
  then have "takeWhile (\<lambda>c. c \<noteq> SPACE) (d @ w @ SPACE # rest) = d @ ?w'"
    using nosp by (simp add: takeWhile_append)
  ultimately show ?thesis by blast
qed

lemma first_token_digest:
  assumes d: "\<forall>c\<in>set d. \<not> is_whitespace c" and "d \<noteq> []"
    and rest: "rest = [] \<or> is_whitespace (hd rest)"
  shows "first_token (d @ rest) = d"
proof -
  have "dropWhile is_whitespace (d @ rest) = d @ rest"
    using d \<open>d \<noteq> []\<close> by (cases d) auto
  moreover have "takeWhile (\<lambda>c. \<not> is_whitespace c) (d @ rest) = d"
    using d rest by (cases rest) (auto simp add: takeWhile_append)
  ultimately show ?thesis by (simp add: first_token_def)
qed

lemma trim_leading: "\<forall>c\<in>set lead. is_whitespace c \<Longrightarrow> trim (lead @ x) = trim x"
  by (simp add: trim_def dropWhile_append)

lemma takeWhile_lead_digest:
  assumes lead: "\<forall>c\<in>set lead. is_whitespace c \<and> c \<noteq> SPACE"
    and d: "\<forall>c\<in>set d. \<not> is_whitespace c" and w: "\<forall>c\<in>set w. is_whitespace c"
  shows "\<exists>w'. (\<forall>c\<in>set w'. is_whitespace c) \<and>
           takeWhile (\<lambda>c. c \<noteq> SPACE) (lead @ d @ w) = lead @ d @ w' \<and>
           takeWhile (\<lambda>c. c \<noteq> SPACE) (lead @ d @ w @ SPACE # rest) = lead @ d @ w'"
proof -
  from takeWhile_digest [OF d w, of rest] obtain w' where
    w': "\<forall>c\<in>set w'. is_whitespace c"
    and t1: "takeWhile (\<lambda>c. c \<noteq> SPACE) (d @ w) = d @ w'"
    and t2: "takeWhile (\<lambda>c. c \<noteq> SPACE) (d @ w @ SPACE # rest) = d @ w'"
    by blast
  have "takeWhile (\<lambda>c. c \<noteq> SPACE) (lead @ x) = lead @ takeWhile (\<lambda>c. c \<noteq> SPACE) x" for x
    using lead by (simp add: takeWhile_append)
  with w' t1 t2 show ?thesis by auto
qed

lemma leading_space_empty:
  assumes "\<forall>c\<in>set lead. is_whitespace c"
  shows "sha256_of_text (lead @ SPACE # rest) = Inr []"
proof -
  have "takeWhile (\<lambda>c. c \<noteq> SPACE) (lead @ SPACE # rest) = takeWhile (\<lambda>c. c \<noteq> SPACE) lead"
    by (induction lead) auto
  moreover have "\<forall>c\<in>set (takeWhile (\<lambda>c. c \<noteq> SPACE) lead). is_whitespace c"
    using assms by (meson set_takeWhileD)
  ultimately show ?thesis
    by (simp add: sha256_of_text_eq trim_def dropWhile_all)
qed

lemma first_token_lead:
  assumes lead: "\<forall>c\<in>set lead. is_whitespace c"
    and d: "\<forall>c\<in>set d. \<not> is_whitespace c" and "d \<noteq> []"
    and rest: "rest = [] \<or> is_whitespace (hd rest)"
  shows "first_token (lead @ d @ rest) = d"
proof -
  have "dropWhile is_whitespace (lead @ d @ rest) = dropWhile is_whitespace (d @ rest)"
    using lead by (simp add: dropWhile_append)
  then have "first_token (lead @ d @ rest) = first_token (d @ rest)"
    by (simp add: first_token_def)
  with first_token_digest [OF d \<open>d \<noteq> []\<close> rest] show ?thesis by simp
qed

text \<open>
  Claim C4, as amended. The stored digest is the text before the first space U+0020
  of the body (the whole body when it has no space), with white space trimmed from
  both ends. For a body made of leading white space other than U+0020 (possibly
  none), a digest free of white space, and then white space only, or white space, a
  space U+0020 and anything, the stored digest is that digest, and it is the first
  white-space-delimited token of the body. When a space U+0020 occurs in the leading
  white space, the stored digest is empty.
\<close>

theorem sha256_of_text_segment:
  "sha256_of_text text = Inr (trim (takeWhile (\<lambda>c. c \<noteq> SPACE) text)) \<and>
   (SPACE \<notin> set text \<longrightarrow> sha256_of_text text = Inr (trim text)) \<and>
   ((\<forall>c\<in>set lead. is_whitespace c \<and> c \<noteq> SPACE) \<and> (\<forall>c\<in>set d. \<not> is_whitespace c) \<and>
    (\<forall>c\<in>set w. is_whitespace c) \<longrightarrow>
      sha256_of_text (lead @ d @ w) = Inr d \<and>
      sha256_of_text (lead @ d @ w @ SPACE # rest) = Inr d \<and>
      (d \<noteq> [] \<longrightarrow> first_token (lead @ d @ w) = d \<and>
                 first_token (lead @ d @ w @ SPACE # rest) = d)) \<and>
   ((\<forall>c\<in>set lead. is_whitespace c) \<longrightarrow> sha256_of_text (lead @ SPACE # rest) = Inr [])"
proof (intro conjI impI)
  show "sha256_of_text text = Inr (trim (takeWhile (\<lambda>c. c \<noteq> SPACE) text))"
    by (rule sha256_of_text_eq)
next
  assume "SPACE \<notin> set text"
  then have "\<forall>c\<in>set text. c \<noteq> SPACE"
    by blast
  then have tw: "takeWhile (\<lambda>c. c \<noteq> SPACE) text = text"
    by (rule takeWhile_eq_all_conv [THEN iffD2])
  show "sha256_of_text text = Inr (trim text)"
    unfolding sha256_of_text_eq tw by (rule refl)
next
  assume a: "(\<forall>c\<in>set lead. is_whitespace c \<and> c \<noteq> SPACE) \<and> (\<forall>c\<in>set d. \<not> is_whitespace c) \<and>
             (\<forall>c\<in>set w. is_whitespace c)"
  then have lead: "\<forall>c\<in>set lead. is_whitespace c" by simp
  from a takeWhile_lead_digest [of lead d w rest] obtain w' where
    w': "\<forall>c\<in>set w'. is_whitespace c"
    and t1: "takeWhile (\<lambda>c. c \<noteq> SPACE) (lead @ d @ w) = lead @ d @ w'"
    and t2: "takeWhile (\<lambda>c. c \<noteq> SPACE) (lead @ d @ w @ SPACE # rest) = lead @ d @ w'"
    by blast
  from a w' lead have tr: "trim (lead @ d @ w') = d"
    by (simp add: trim_leading trim_digest)
  show "sha256_of_text (lead @ d @ w) = Inr d"
    by (simp add: sha256_of_text_eq t1 tr)
  show "sha256_of_text (lead @ d @ w @ SPACE # rest) = Inr d"
    by (simp add: sha256_of_text_eq t2 tr)
  assume ne: "d \<noteq> []"
  have r1: "w = [] \<or> is_whitespace (hd w)"
    using a by (cases w) auto
  have r2: "w @ SPACE # rest = [] \<or> is_whitespace (hd (w @ SPACE # rest))"
    using a space_is_whitespace by (cases w) auto
  show "first_token (lead @ d @ w) = d"
    using a lead ne r1 by (simp add: first_token_lead)
  show "first_token (lead @ d @ w @ SPACE # rest) = d"
    using a lead ne r2 by (simp add: first_token_lead)
next
  assume "\<forall>c\<in>set lead. is_whitespace c"
  then show "sha256_of_text (lead @ SPACE # rest) = Inr []"
    by (rule leading_space_empty)
qed

theorem sha256_of_text_segment_witness:
  "sha256_of_text ([0x09] @ js ''deadbeef'' @ [0x0A]) = Inr (js ''deadbeef'') \<and>
   sha256_of_text ([0x09] @ js ''deadbeef'' @ [0x0A] @ SPACE # js ''a.pbf'') = Inr (js ''deadbeef'') \<and>
   first_token ([0x09] @ js ''deadbeef'' @ [0x0A] @ SPACE # js ''a.pbf'') = js ''deadbeef'' \<and>
   sha256_of_text ([0x09] @ SPACE # js ''deadbeef'') = Inr []"
proof -
  have h: "(\<forall>c\<in>set [0x09]. is_whitespace c \<and> c \<noteq> SPACE) \<and>
           (\<forall>c\<in>set (js ''deadbeef''). \<not> is_whitespace c) \<and> (\<forall>c\<in>set [0x0A]. is_whitespace c)"
    by (simp add: js_def is_whitespace_def SPACE_def)
  have l: "\<forall>c\<in>set [0x09]. is_whitespace c"
    by (simp add: is_whitespace_def)
  have ne: "js ''deadbeef'' \<noteq> []"
    by (simp add: js_def)
  from sha256_of_text_segment [of "[]" "[0x09]" "js ''deadbeef''" "[0x0A]" "js ''a.pbf''"]
    sha256_of_text_segment [of "[]" "[0x09]" "[]" "[]" "js ''deadbeef''"] h l ne
  show ?thesis by blast
qed

text \<open>
  Claim C4 as stated fails: with a leading space the stored digest is empty, and with
  a TAB as the separator it is the whole body; the first white-space-delimited token
  is \<open>deadbeef\<close> in both bodies.
\<close>

theorem sha256_of_text_counterexample:
  "sha256_of_text (js '' deadbeef a.pbf'') = Inr [] \<and>
   first_token (js '' deadbeef a.pbf'') = js ''deadbeef'' \<and>
   sha256_of_text (js ''deadbeef'' @ [0x09] @ js ''a.pbf'') = Inr (js ''deadbeef'' @ [0x09] @ js ''a.pbf'') \<and>
   first_token (js ''deadbeef'' @ [0x09] @ js ''a.pbf'') = js ''deadbeef''"
  by (simp add: sha256_of_text_def first_elem_def first_token_def trim_def js_def SPACE_def is_whitespace_def)

section \<open>Properties of the enrichment\<close>

lemma with_hash_item_eq:
  "with_hash_item fetch item =
     Inr (item\<lparr>sha256 := Some
       (case fetch (FileItem.url item @ js ''.sha256'') of
          NetworkError \<Rightarrow> NA
        | Response status None \<Rightarrow> NA
        | Response status (Some text) \<Rightarrow> trim (takeWhile (\<lambda>c. c \<noteq> SPACE) text))\<rparr>)"
  by (simp add: with_hash_item_def with_hash_try_def fetch_then_def sha256_of_text_eq
      split: fetch_result.splits option.splits)

lemma promise_all_fulfilled: "promise_all (map (\<lambda>x. Inr (f x)) xs) = Inr (map f xs)"
  by (induction xs) simp_all

lemma withHash_eq:
  "withHash fetch items =
     Inr (map (\<lambda>item. item\<lparr>sha256 := Some
       (case fetch (FileItem.url item @ js ''.sha256'') of
          NetworkError \<Rightarrow> NA
        | Response status None \<Rightarrow> NA
        | Response status (Some text) \<Rightarrow> trim (takeWhile (\<lambda>c. c \<noteq> SPACE) text))\<rparr>) items)"
  unfolding withHash_def
  by (simp only: with_hash_item_eq [abs_def] promise_all_fulfilled)

text \<open>
  Claim C1, as amended. The enrichment never fails and returns one record per input
  record, in the input order. A record whose companion request fails, or whose
  response body cannot be read, gets the sentinel \<open>N/A\<close>; a response whose body
  reads, whatever its status and whatever the body, gets the trimmed text before the
  first space. The result for a record depends only on that record and on the
  outcome of its own companion request.
\<close>

theorem withHash_failure_isolation:
  "\<exists>rs. withHash fetch items = Inr rs \<and> length rs = length items \<and>
     (\<forall>i<length items.
        rs ! i = (items ! i)\<lparr>sha256 := Some
          (case fetch (FileItem.url (items ! i) @ js ''.sha256'') of
             NetworkError \<Rightarrow> NA
           | Response status None \<Rightarrow> NA
           | Response status (Some text) \<Rightarrow> trim (takeWhile (\<lambda>c. c \<noteq> SPACE) text))\<rparr> \<and>
        (\<forall>fetch'. fetch' (FileItem.url (items ! i) @ js ''.sha256'')
                    = fetch (FileItem.url (items ! i) @ js ''.sha256'') \<longrightarrow>
           (\<exists>rs'. withHash fetch' items = Inr rs' \<and> rs' ! i = rs ! i)))"
  by (simp add: withHash_eq)

theorem withHash_failure_isolation_witness:
  "withHash flaky_fetch [scenario_file, gol_file]
     = Inr [scenario_file\<lparr>sha256 := Some NA\<rparr>, gol_file\<lparr>sha256 := Some (js ''deadbeef'')\<rparr>]"
proof -
  from withHash_failure_isolation [of flaky_fetch "[scenario_file, gol_file]"]
  obtain rs where ok: "withHash flaky_fetch [scenario_file, gol_file] = Inr rs"
    and len: "length rs = 2"
    and each: "\<forall>i<2. rs ! i = ([scenario_file, gol_file] ! i)\<lparr>sha256 := Some
          (case flaky_fetch (FileItem.url ([scenario_file, gol_file] ! i) @ js ''.sha256'') of
             NetworkError \<Rightarrow> NA
           | Response status None \<Rightarrow> NA
           | Response status (Some text) \<Rightarrow> trim (takeWhile (\<lambda>c. c \<noteq> SPACE) text))\<rparr>"
    by auto
  from each have r0: "rs ! 0 = scenario_file\<lparr>sha256 := Some NA\<rparr>"
    by (simp add: flaky_fetch_def scenario_file_def js_def)
  from each have "rs ! 1 = gol_file\<lparr>sha256 := Some (trim (takeWhile (\<lambda>c. c \<noteq> SPACE) (js ''deadbeef  b.gol'' @ [0x0A])))\<rparr>"
    by (simp add: flaky_fetch_def gol_file_def js_def)
  then have r1: "rs ! 1 = gol_file\<lparr>sha256 := Some (js ''deadbeef'')\<rparr>"
    by (simp add: js_def SPACE_def trim_def is_whitespace_def)
  from len obtain a b where "rs = [a, b]"
    by (cases rs; cases "tl rs") auto
  with r0 r1 ok show ?thesis by simp
qed

text \<open>
  Claim C1 as stated fails for a response that is not 200: the status is never
  looked at, and the first word of the error page becomes the digest.
\<close>

theorem withHash_non_200_counterexample:
  "withHash not_found_fetch [scenario_file] = Inr [scenario_file\<lparr>sha256 := Some (js ''Not'')\<rparr>] \<and>
   js ''Not'' \<noteq> NA"
  by (simp add: withHash_def with_hash_item_def with_hash_try_def fetch_then_def sha256_of_text_def
      first_elem_def not_found_fetch_def trim_def is_whitespace_def js_def SPACE_def NA_def)

lemma dropWhile_last: "dropWhile P xs \<noteq> [] \<Longrightarrow> last (dropWhile P xs) = last xs"
  by (induction xs) (auto split: if_splits)

lemma trim_ends:
  assumes "trim s \<noteq> []"
  shows "\<not> is_whitespace (hd (trim s)) \<and> \<not> is_whitespace (last (trim s))"
proof -
  let ?a = "dropWhile is_whitespace s"
  let ?b = "dropWhile is_whitespace (rev ?a)"
  from assms have b: "?b \<noteq> []" by (simp add: trim_def)
  then have a: "?a \<noteq> []"
    by (metis dropWhile.simps(1) rev.simps(1))
  have "last (trim s) = hd ?b"
    using b by (simp add: trim_def last_rev)
  moreover have "\<not> is_whitespace (hd ?b)"
    using b by (rule hd_dropWhile)
  moreover have "hd (trim s) = last ?b"
    using b by (simp add: trim_def hd_rev)
  moreover have "last ?b = last (rev ?a)"
    using b by (rule dropWhile_last)
  moreover have "last (rev ?a) = hd ?a"
    using a by (simp add: last_rev)
  moreover have "\<not> is_whitespace (hd ?a)"
    using a by (rule hd_dropWhile)
  ultimately show ?thesis by simp
qed

lemma trim_subset: "set (trim s) \<subseteq> set s"
proof -
  have "set (dropWhile is_whitespace (rev (dropWhile is_whitespace s))) \<subseteq> set (rev (dropWhile is_whitespace s))"
    by (meson set_dropWhileD subsetI)
  also have "\<dots> \<subseteq> set s"
    by (auto dest: set_dropWhileD)
  finally show ?thesis by (simp add: trim_def)
qed

lemma segment_no_space: "SPACE \<notin> set (trim (takeWhile (\<lambda>c. c \<noteq> SPACE) text))"
  using trim_subset [of "takeWhile (\<lambda>c. c \<noteq> SPACE) text"]
  by (auto dest: set_takeWhileD)

lemma NA_shape: "NA \<noteq> [] \<and> SPACE \<notin> set NA \<and> \<not> is_whitespace (hd NA) \<and> \<not> is_whitespace (last NA)"
  by (simp add: NA_def js_def SPACE_def is_whitespace_def)

text \<open>
  Claim C2, as amended. After enrichment every record has a \<open>sha256\<close> string (it is
  never \<open>undefined\<close>): the sentinel \<open>N/A\<close> when its companion request failed or the
  body could not be read, and otherwise the trimmed text before the first space of
  the companion body. That string holds no space and neither begins nor ends with
  white space; it may be empty and need not be a hex digest.
\<close>

theorem withHash_sha256_value:
  assumes "withHash fetch items = Inr rs" and "r \<in> set rs"
  shows "\<exists>s. sha256 r = Some s \<and>
           s = (case fetch (FileItem.url r @ js ''.sha256'') of
                  NetworkError \<Rightarrow> NA
                | Response status None \<Rightarrow> NA
                | Response status (Some text) \<Rightarrow> trim (takeWhile (\<lambda>c. c \<noteq> SPACE) text)) \<and>
           SPACE \<notin> set s \<and>
           (s \<noteq> [] \<longrightarrow> \<not> is_whitespace (hd s) \<and> \<not> is_whitespace (last s))"
proof -
  from assms obtain item where item: "item \<in> set items"
    and r: "r = item\<lparr>sha256 := Some
       (case fetch (FileItem.url item @ js ''.sha256'') of
          NetworkError \<Rightarrow> NA
        | Response status None \<Rightarrow> NA
        | Response status (Some text) \<Rightarrow> trim (takeWhile (\<lambda>c. c \<noteq> SPACE) text))\<rparr>"
    by (auto simp add: withHash_eq)
  show ?thesis
  proof (cases "fetch (FileItem.url item @ js ''.sha256'')")
    case NetworkError
    with r NA_shape show ?thesis by simp
  next
    case (Response status body)
    show ?thesis
    proof (cases body)
      case None
      with r Response NA_shape show ?thesis by simp
    next
      case (Some t)
      with r Response segment_no_space [of t] trim_ends [of "takeWhile (\<lambda>c. c \<noteq> SPACE) t"]
      show ?thesis by simp
    qed
  qed
qed

theorem withHash_sha256_value_witness:
  "sha256 (gol_file\<lparr>sha256 := Some (js ''deadbeef'')\<rparr>) = Some (js ''deadbeef'') \<and>
   js ''deadbeef'' = trim (takeWhile (\<lambda>c. c \<noteq> SPACE) (js ''deadbeef  b.gol'' @ [0x0A])) \<and>
   SPACE \<notin> set (js ''deadbeef'')"
proof -
  have run: "withHash flaky_fetch [scenario_file, gol_file]
     = Inr [scenario_file\<lparr>sha256 := Some NA\<rparr>, gol_file\<lparr>sha256 := Some (js ''deadbeef'')\<rparr>]"
    by (simp add: withHash_def with_hash_item_def with_hash_try_def fetch_then_def sha256_of_text_def
      first_elem_def flaky_fetch_def scenario_file_def gol_file_def trim_def is_whitespace_def js_def SPACE_def)
  have mem: "gol_file\<lparr>sha256 := Some (js ''deadbeef'')\<rparr>
               \<in> set [scenario_file\<lparr>sha256 := Some NA\<rparr>, gol_file\<lparr>sha256 := Some (js ''deadbeef'')\<rparr>]"
    by simp
  have out: "flaky_fetch (FileItem.url gol_file @ js ''.sha256'')
               = Response 200 (Some (js ''deadbeef  b.gol'' @ [0x0A]))"
    by (simp add: flaky_fetch_def gol_file_def js_def)
  from withHash_sha256_value [OF run mem] obtain s where
    a: "sha256 (gol_file\<lparr>sha256 := Some (js ''deadbeef'')\<rparr>) = Some s"
    and b: "s = (case flaky_fetch (FileItem.url (gol_file\<lparr>sha256 := Some (js ''deadbeef'')\<rparr>) @ js ''.sha256'') of
                  NetworkError \<Rightarrow> NA
                | Response status None \<Rightarrow> NA
                | Response status (Some text) \<Rightarrow> trim (takeWhile (\<lambda>c. c \<noteq> SPACE) text))"
    and c: "SPACE \<notin> set s"
    by blast
  from a have e: "s = js ''deadbeef''"
    by simp
  have "FileItem.url (gol_file\<lparr>sha256 := Some (js ''deadbeef'')\<rparr>) = FileItem.url gol_file"
    by simp
  with b have f: "s = trim (takeWhile (\<lambda>c. c \<noteq> SPACE) (js ''deadbeef  b.gol'' @ [0x0A]))"
    by (simp only: out fetch_result.case option.case)
  show ?thesis
    using a c f unfolding e by blast
qed

text \<open>
  Claim C2 as stated fails: an empty companion body gives the empty string, which is
  neither a hex digest nor the sentinel.
\<close>

theorem withHash_empty_digest_counterexample:
  "withHash empty_body_fetch [scenario_file] = Inr [scenario_file\<lparr>sha256 := Some []\<rparr>] \<and>
   \<not> is_hex_digest [] \<and> [] \<noteq> NA"
  by (simp add: withHash_def with_hash_item_def with_hash_try_def fetch_then_def sha256_of_text_def
      first_elem_def empty_body_fetch_def trim_def is_hex_digest_def js_def NA_def)

section \<open>Properties of the normalisation\<close>

lemma digit_value_range: "is_digit c \<Longrightarrow> 0 \<le> digit_value c \<and> digit_value c \<le> 9"
  by (auto simp add: is_digit_def digit_value_def word_le_def)

lemma digit_not_whitespace: "is_digit c \<Longrightarrow> \<not> is_whitespace c"
  by (auto simp add: is_digit_def is_whitespace_def)

lemma digit_not_sign: "is_digit c \<Longrightarrow> c \<noteq> 0x2B \<and> c \<noteq> 0x2D"
  by (auto simp add: is_digit_def)

lemma foldl_digits_bound:
  "list_all is_digit s \<Longrightarrow> 0 \<le> a \<Longrightarrow>
     0 \<le> foldl (\<lambda>acc c. 10 * acc + digit_value c) a s \<and>
     foldl (\<lambda>acc c. 10 * acc + digit_value c) a s + 1 \<le> (a + 1) * 10 ^ length s"
proof (induction s arbitrary: a)
  case Nil
  then show ?case by simp
next
  case (Cons c s)
  then have d: "0 \<le> digit_value c" "digit_value c \<le> 9" and rest: "list_all is_digit s"
    by (simp_all add: digit_value_range)
  from d Cons.prems have nonneg: "0 \<le> 10 * a + digit_value c" by simp
  from Cons.IH [OF rest nonneg]
  have lo: "0 \<le> foldl (\<lambda>acc c. 10 * acc + digit_value c) (10 * a + digit_value c) s"
    and hi: "foldl (\<lambda>acc c. 10 * acc + digit_value c) (10 * a + digit_value c) s + 1
          \<le> (10 * a + digit_value c + 1) * 10 ^ length s"
    by simp_all
  note hi
  also have "(10 * a + digit_value c + 1) * 10 ^ length s \<le> (10 * a + 10) * 10 ^ length s"
    using d by (intro mult_right_mono) simp_all
  also have "\<dots> = (a + 1) * 10 ^ length (c # s)"
    by (simp add: algebra_simps)
  finally show ?case using lo by simp
qed

lemma decimal_value_bound:
  "list_all is_digit s \<Longrightarrow> 0 \<le> decimal_value s \<and> decimal_value s < 10 ^ length s"
  using foldl_digits_bound [of s 0] by (simp add: decimal_value_def)

lemma parseInt10_digits:
  assumes "s \<noteq> []" and "list_all is_digit s"
  shows "parseInt10 s = number_of_int (decimal_value s)"
proof -
  from assms obtain c cs where s: "s = c # cs" and c: "is_digit c"
    by (cases s) auto
  have dw: "dropWhile is_whitespace s = s"
    using s c digit_not_whitespace by simp
  have sign: "hd s \<noteq> 0x2B" "hd s \<noteq> 0x2D"
    using s c digit_not_sign by auto
  have tw: "takeWhile is_digit s = s"
    using assms(2) by (simp add: takeWhile_eq_all_conv list_all_iff)
  show ?thesis
    using assms(1) sign by (simp add: parseInt10_def Let_def dw tw)
qed

lemma number_of_int_exact: "\<bar>n\<bar> \<le> 2 ^ 53 \<Longrightarrow> number_of_int n = Finite (of_int n)"
  by (simp add: number_of_int_def Let_def)

lemma parseInt10_short:
  assumes "s \<noteq> []" and "list_all is_digit s" and "length s \<le> 15"
  shows "parseInt10 s = Finite (of_int (decimal_value s)) \<and> 0 \<le> decimal_value s"
proof -
  have range: "0 \<le> decimal_value s" "decimal_value s < 10 ^ length s"
    using assms(2) decimal_value_bound by simp_all
  note range(2)
  also have "(10::int) ^ length s \<le> 10 ^ 15"
    using assms(3) by (intro power_increasing) simp_all
  also have "(10::int) ^ 15 \<le> 2 ^ 53"
    by simp
  finally have "\<bar>decimal_value s\<bar> \<le> 2 ^ 53" using range(1) by simp
  then show ?thesis
    using assms range(1) by (simp add: parseInt10_digits number_of_int_exact)
qed

lemma planet_item_size: "FileItem.size' (planet_item up pm) = Num (coerce_size (PlanetMetadata.size' pm))"
  by (simp add: planet_item_def Let_def)

lemma decimal_308_below_overflow: "(10::int) ^ 308 * (2 ^ 53 + 1) \<le> 2 ^ 1024 * 2 ^ 53"
  by simp

lemma bit_length_lower: "0 < a \<Longrightarrow> 2 ^ (bit_length a - 1) \<le> a"
proof (induction a rule: bit_length.induct)
  case (1 n)
  show ?case
  proof (cases "n div 2 \<le> 0")
    case True
    with "1.prems" show ?thesis
      by (simp add: bit_length.simps [of n] bit_length.simps [of 0])
  next
    case False
    then have pos: "0 < n div 2" by simp
    with "1.IH" "1.prems" have ih: "2 ^ (bit_length (n div 2) - 1) \<le> n div 2"
      by simp
    from pos have "bit_length (n div 2) = Suc (bit_length (n div 2) - 1)"
      by (simp add: bit_length.simps [of "n div 2"])
    then have "(2::int) ^ bit_length (n div 2) = 2 * 2 ^ (bit_length (n div 2) - 1)"
      by (metis power_Suc)
    also have "\<dots> \<le> 2 * (n div 2)"
      using ih by simp
    also have "\<dots> \<le> n"
      by simp
    finally show ?thesis
      using "1.prems" by (simp add: bit_length.simps [of n])
  qed
qed

lemma number_of_int_rounding:
  assumes "0 \<le> n"
  shows "number_of_int n = PosInf \<and> 2 ^ 1024 * 2 ^ 53 \<le> n * (2 ^ 53 + 1) \<or>
         (\<exists>m. number_of_int n = Finite (of_int m) \<and> 0 \<le> m \<and> \<bar>m - n\<bar> * 2 ^ 53 \<le> n)"
proof (cases "n \<le> 2 ^ 53")
  case True
  with assms have "number_of_int n = Finite (of_int n)"
    by (simp add: number_of_int_def)
  with assms show ?thesis by auto
next
  case False
  define e where "e = bit_length n - 53"
  define q where "q = n div 2 ^ e"
  define r where "r = n mod 2 ^ e"
  define q' where "q' = (if r > 2 ^ (e - 1) \<or> (r = 2 ^ (e - 1) \<and> odd q) then q + 1 else q)"
  define m where "m = q' * 2 ^ e"
  from False assms have pos: "0 < n" by simp
  have split: "n = q * 2 ^ e + r"
    unfolding q_def r_def by (rule div_mult_mod_eq [symmetric])
  have r: "0 \<le> r" "r < 2 ^ e"
    by (simp_all add: r_def)
  have q: "0 \<le> q"
    using assms by (simp add: q_def pos_imp_zdiv_nonneg_iff)
  then have m0: "0 \<le> m"
    by (simp add: m_def q'_def)
  have err: "\<bar>m - n\<bar> * 2 ^ 53 \<le> n"
  proof (cases "e = 0")
    case True
    then have "r = 0" using r by simp
    with True have "m = n"
      by (simp add: m_def q'_def split)
    with assms show ?thesis by simp
  next
    case False
    then have two: "(2::int) ^ e = 2 * 2 ^ (e - 1)"
      by (cases e) simp_all
    have "\<bar>m - n\<bar> \<le> 2 ^ (e - 1)"
      using r two by (auto simp add: m_def q'_def split algebra_simps)
    moreover have "e - 1 + 53 = bit_length n - 1"
      using False by (simp add: e_def)
    then have "(2::int) ^ (e - 1) * 2 ^ 53 = 2 ^ (bit_length n - 1)"
      by (metis power_add)
    with bit_length_lower [OF pos] have "(2::int) ^ (e - 1) * 2 ^ 53 \<le> n"
      by simp
    ultimately show ?thesis
      by (meson mult_right_mono order_trans zero_le_numeral zero_le_power)
  qed
  have val: "number_of_int n = (if m \<ge> 2 ^ 1024 then PosInf else Finite (of_int m))"
    using False pos
    by (simp add: number_of_int_def Let_def e_def q_def r_def q'_def m_def)
  show ?thesis
  proof (cases "m \<ge> 2 ^ 1024")
    case True
    have "(m - n) * 2 ^ 53 \<le> \<bar>m - n\<bar> * 2 ^ 53"
      by (intro mult_right_mono) simp_all
    with err have "(m - n) * 2 ^ 53 \<le> n"
      by linarith
    then have "m * 2 ^ 53 \<le> n * 2 ^ 53 + n"
      by (simp add: algebra_simps)
    moreover from True have "(2::int) ^ 1024 * 2 ^ 53 \<le> m * 2 ^ 53"
      by (intro mult_right_mono) simp_all
    ultimately have "(2::int) ^ 1024 * 2 ^ 53 \<le> n * (2 ^ 53 + 1)"
      by (simp add: algebra_simps)
    with val True show ?thesis by simp
  next
    case False
    with val m0 err show ?thesis by auto
  qed
qed

lemma parseInt10_rounding:
  assumes "s \<noteq> []" and "list_all is_digit s"
  shows "0 \<le> decimal_value s \<and>
         (parseInt10 s = PosInf \<and> 2 ^ 1024 * 2 ^ 53 \<le> decimal_value s * (2 ^ 53 + 1) \<or>
          (\<exists>m. parseInt10 s = Finite (of_int m) \<and> 0 \<le> m \<and>
               \<bar>m - decimal_value s\<bar> * 2 ^ 53 \<le> decimal_value s))"
  using assms number_of_int_rounding [of "decimal_value s"] decimal_value_bound [of s]
  by (simp add: parseInt10_digits)

lemma parseInt10_finite:
  assumes "s \<noteq> []" and "list_all is_digit s" and "length s \<le> 308"
  shows "\<exists>m. parseInt10 s = Finite (of_int m) \<and> 0 \<le> m \<and>
               \<bar>m - decimal_value s\<bar> * 2 ^ 53 \<le> decimal_value s"
proof -
  have "decimal_value s < 10 ^ length s"
    using assms(2) decimal_value_bound by simp
  also have "(10::int) ^ length s \<le> 10 ^ 308"
    using assms(3) by (intro power_increasing) simp_all
  finally have "decimal_value s * (2 ^ 53 + 1) < 10 ^ 308 * (2 ^ 53 + 1)"
    by (intro mult_strict_right_mono) simp_all
  also have "(10::int) ^ 308 * (2 ^ 53 + 1) \<le> 2 ^ 1024 * 2 ^ 53"
    by simp
  finally have "\<not> 2 ^ 1024 * 2 ^ 53 \<le> decimal_value s * (2 ^ 53 + 1)"
    by simp
  with parseInt10_rounding [OF assms(1,2)] show ?thesis by blast
qed

lemma nonneg_integer_of_int: "0 \<le> m \<Longrightarrow> size_is_nonneg_integer (Num (Finite (of_int m)))"
  by (simp add: size_is_nonneg_integer_def)

text \<open>
  Claim C3, as amended. In the loader of the array-shaped manifest a \<open>size\<close> that is a
  number is passed through unchanged, so that a non-negative integer stays one. A
  \<open>size\<close> that is a non-empty string of decimal
  digits becomes, for up to 15 digits, exactly the integer the digits denote; for up
  to 308 digits a non-negative integer within a relative error of \<open>2^-53\<close> of it; and
  for any length such an integer or, only for a value of at least
  \<open>2^1024 * 2^53 / (2^53 + 1)\<close>, \<open>Infinity\<close>. The loaders of the category-keyed manifest
  copy \<open>size\<close> as it is, without coercion.
\<close>

theorem size_coercion_value:
  "(PlanetMetadata.size' pm = Num n \<longrightarrow> FileItem.size' (planet_item up pm) = Num n) \<and>
   (PlanetMetadata.size' pm = Num n \<and> is_nonneg_integer n \<longrightarrow>
      size_is_nonneg_integer (FileItem.size' (planet_item up pm))) \<and>
   (PlanetMetadata.size' pm = Str s \<and> s \<noteq> [] \<and> list_all is_digit s \<longrightarrow>
      0 \<le> decimal_value s \<and>
      (FileItem.size' (planet_item up pm) = Num PosInf \<and>
         2 ^ 1024 * 2 ^ 53 \<le> decimal_value s * (2 ^ 53 + 1) \<or>
       (\<exists>m. FileItem.size' (planet_item up pm) = Num (Finite (of_int m)) \<and> 0 \<le> m \<and>
            \<bar>m - decimal_value s\<bar> * 2 ^ 53 \<le> decimal_value s \<and>
            size_is_nonneg_integer (FileItem.size' (planet_item up pm)))) \<and>
      (length s \<le> 308 \<longrightarrow>
         (\<exists>m. FileItem.size' (planet_item up pm) = Num (Finite (of_int m)) \<and> 0 \<le> m \<and>
              \<bar>m - decimal_value s\<bar> * 2 ^ 53 \<le> decimal_value s) \<and>
         size_is_nonneg_integer (FileItem.size' (planet_item up pm))) \<and>
      (length s \<le> 15 \<longrightarrow>
         FileItem.size' (planet_item up pm) = Num (Finite (of_int (decimal_value s))))) \<and>
   FileItem.size' (category_item k e) = CategoryEntry.size' e"
proof (intro conjI impI)
  assume "PlanetMetadata.size' pm = Num n"
  then show "FileItem.size' (planet_item up pm) = Num n"
    by (simp add: planet_item_size coerce_size_def)
next
  assume "PlanetMetadata.size' pm = Num n \<and> is_nonneg_integer n"
  then show "size_is_nonneg_integer (FileItem.size' (planet_item up pm))"
    by (simp add: planet_item_size coerce_size_def size_is_nonneg_integer_def)
next
  assume a: "PlanetMetadata.size' pm = Str s \<and> s \<noteq> [] \<and> list_all is_digit s"
  then have sz: "FileItem.size' (planet_item up pm) = Num (parseInt10 s)"
    by (simp add: planet_item_size coerce_size_def)
  from a have r: "0 \<le> decimal_value s \<and>
         (parseInt10 s = PosInf \<and> 2 ^ 1024 * 2 ^ 53 \<le> decimal_value s * (2 ^ 53 + 1) \<or>
          (\<exists>m. parseInt10 s = Finite (of_int m) \<and> 0 \<le> m \<and>
               \<bar>m - decimal_value s\<bar> * 2 ^ 53 \<le> decimal_value s))"
    by (intro parseInt10_rounding) simp_all
  from r show "0 \<le> decimal_value s" by simp
  from r show "FileItem.size' (planet_item up pm) = Num PosInf \<and>
         2 ^ 1024 * 2 ^ 53 \<le> decimal_value s * (2 ^ 53 + 1) \<or>
       (\<exists>m. FileItem.size' (planet_item up pm) = Num (Finite (of_int m)) \<and> 0 \<le> m \<and>
            \<bar>m - decimal_value s\<bar> * 2 ^ 53 \<le> decimal_value s \<and>
            size_is_nonneg_integer (FileItem.size' (planet_item up pm)))"
    unfolding sz using nonneg_integer_of_int by auto
next
  assume a: "PlanetMetadata.size' pm = Str s \<and> s \<noteq> [] \<and> list_all is_digit s"
    and len: "length s \<le> 308"
  then have sz: "FileItem.size' (planet_item up pm) = Num (parseInt10 s)"
    by (simp add: planet_item_size coerce_size_def)
  from a len obtain m where m: "parseInt10 s = Finite (of_int m)" "0 \<le> m"
      "\<bar>m - decimal_value s\<bar> * 2 ^ 53 \<le> decimal_value s"
    using parseInt10_finite [of s] by auto
  then show "\<exists>m. FileItem.size' (planet_item up pm) = Num (Finite (of_int m)) \<and> 0 \<le> m \<and>
              \<bar>m - decimal_value s\<bar> * 2 ^ 53 \<le> decimal_value s"
    unfolding sz by blast
  from m show "size_is_nonneg_integer (FileItem.size' (planet_item up pm))"
    unfolding sz by (simp add: nonneg_integer_of_int)
next
  assume a: "PlanetMetadata.size' pm = Str s \<and> s \<noteq> [] \<and> list_all is_digit s"
    and len: "length s \<le> 15"
  then show "FileItem.size' (planet_item up pm) = Num (Finite (of_int (decimal_value s)))"
    by (simp add: planet_item_size coerce_size_def parseInt10_short)
next
  show "FileItem.size' (category_item k e) = CategoryEntry.size' e"
    by (simp add: category_item_def Let_def)
qed

theorem size_coercion_value_witness:
  "FileItem.size' (planet_item (\<lambda>s. s) planet_entry) = Num (Finite 100) \<and>
   size_is_nonneg_integer (FileItem.size' (planet_item (\<lambda>s. s) planet_entry)) \<and>
   FileItem.size' (category_item (js ''gol'') gol_entry) = Num (Finite 2048)"
proof -
  have h: "PlanetMetadata.size' planet_entry = Str (js ''100'') \<and> js ''100'' \<noteq> [] \<and>
           list_all is_digit (js ''100'')"
    by (simp add: planet_entry_def js_def is_digit_def)
  have len: "length (js ''100'') \<le> 15" "length (js ''100'') \<le> 308"
    by (simp_all add: js_def)
  have v: "decimal_value (js ''100'') = 100"
    by (simp add: decimal_value_def digit_value_def js_def)
  have g: "CategoryEntry.size' gol_entry = Num (Finite 2048)"
    by (simp add: gol_entry_def)
  from size_coercion_value [of planet_entry _ "\<lambda>s. s" "js ''100''" "js ''gol''" gol_entry] h len
  have "FileItem.size' (planet_item (\<lambda>s. s) planet_entry) = Num (Finite (of_int (decimal_value (js ''100''))))"
    and "size_is_nonneg_integer (FileItem.size' (planet_item (\<lambda>s. s) planet_entry))"
    and "FileItem.size' (category_item (js ''gol'') gol_entry) = CategoryEntry.size' gol_entry"
    by blast+
  with v g show ?thesis by simp
qed

lemma parseInt10_rounds_to_even:
  "parseInt10 (js ''9007199254740993'') = Finite 9007199254740992"
  by (simp add: parseInt10_def js_def is_whitespace_def is_digit_def decimal_value_def
      digit_value_def number_of_int_def bit_length.simps Let_def)

text \<open>
  Claim C3 as stated fails on the specification's own scenario: the category-keyed
  loader keeps the size \<open>"100"\<close> a string.
\<close>

theorem size_coercion_counterexample:
  "category_items scenario_manifest = [scenario_file] \<and>
   FileItem.size' scenario_file = Str (js ''100'') \<and>
   \<not> size_is_nonneg_integer (FileItem.size' scenario_file)"
  by (simp add: category_items_def scenario_manifest_def category_item_def push_def pop_def
      or_empty_def scenario_entry_def scenario_file_def size_is_nonneg_integer_def js_def SLASH_def)

section \<open>Properties of the loaders\<close>

lemma foldl_push: "foldl (\<lambda>items item. push items (f item)) acc arr = acc @ map f arr"
  by (induction arr arbitrary: acc) (simp_all add: push_def)

lemma foldl_categories:
  "foldl (\<lambda>items (k, arr). foldl (\<lambda>items item. push items (category_item k item)) items arr) acc data
     = acc @ concat (map (\<lambda>(k, arr). map (category_item k) arr) data)"
  by (induction data arbitrary: acc) (auto simp add: foldl_push)

lemma category_items_concat:
  "category_items data = concat (map (\<lambda>(k, arr). map (category_item k) arr) data)"
  by (simp add: category_items_def foldl_categories)

lemma length_category_items: "length (category_items data) = entry_count data"
  by (induction data) (auto simp add: category_items_concat entry_count_def)

lemma length_insert_sorted: "length (insert_sorted cmp x ys) = Suc (length ys)"
  by (induction ys) simp_all

lemma length_array_sort: "length (array_sort cmp xs) = length xs"
  by (induction xs) (simp_all add: array_sort_def length_insert_sorted)

lemma withHash_total: "\<exists>rs. withHash fetch items = Inr rs \<and> length rs = length items \<and>
   map FileItem.url rs = map FileItem.url items \<and> map filename rs = map filename items"
  by (simp add: withHash_eq comp_def)

lemma Page_effect_loaded:
  assumes "withHash fetch (category_items data) = Inr rs"
  shows "Page_effect (Response status (Some data)) fetch st = (st\<lparr>files := rs, loading := False\<rparr>, None)"
  using assms by (simp add: Page_effect_def try_finally_def fetch_then_def)

lemma Page_sorted_effect_loaded:
  assumes "withHash fetch (category_items data) = Inr rs"
  shows "Page_sorted_effect lc (Response status (Some data)) fetch st
           = (st\<lparr>files := array_sort (by_extension lc) rs, loading := False\<rparr>, None)"
  using assms by (simp add: Page_sorted_effect_def try_finally_def fetch_then_def)

lemma Page_planet_effect_loaded:
  assumes "withHash fetch (planet_items up data) = Inr rs"
  shows "Page_planet_effect up lc (Response status (Some data)) fetch st
           = (st\<lparr>files := array_sort (by_extension lc) rs, loading := False\<rparr>, None)"
  using assms by (simp add: Page_planet_effect_def try_finally_def fetch_then_def)

text \<open>
  Claim C5. The loader of the category-keyed manifest builds one record for every
  entry of every category, and the loader of the array-shaped manifest one record
  for every element; the list each of the three pages publishes from a delivered
  manifest has that many records.
\<close>

theorem record_count:
  "length (category_items data) = entry_count data \<and>
   length (planet_items up pdata) = length pdata \<and>
   length (files (fst (Page_effect (Response status (Some data)) fetch st))) = entry_count data \<and>
   length (files (fst (Page_sorted_effect lc (Response status (Some data)) fetch st))) = entry_count data \<and>
   length (files (fst (Page_planet_effect up lc (Response status (Some pdata)) fetch st))) = length pdata"
proof -
  obtain rs where rs: "withHash fetch (category_items data) = Inr rs"
    and len: "length rs = length (category_items data)"
    using withHash_total by blast
  obtain ps where ps: "withHash fetch (planet_items up pdata) = Inr ps"
    and plen: "length ps = length (planet_items up pdata)"
    using withHash_total by blast
  have "length (planet_items up pdata) = length pdata"
    by (simp add: planet_items_def)
  with len plen show ?thesis
    by (simp add: Page_effect_loaded [OF rs] Page_sorted_effect_loaded [OF rs]
        Page_planet_effect_loaded [OF ps] length_array_sort length_category_items)
qed

theorem record_count_witness:
  "length (category_items two_kind_manifest) = 2 \<and>
   length (planet_items (\<lambda>s. s) [planet_entry]) = 1 \<and>
   length (files (fst (Page_effect two_kind_response flaky_fetch initial_state))) = 2 \<and>
   length (files (fst (Page_sorted_effect code_unit_compare two_kind_response flaky_fetch initial_state))) = 2 \<and>
   length (files (fst (Page_planet_effect (\<lambda>s. s) code_unit_compare planet_response flaky_fetch initial_state))) = 1"
  using record_count [of two_kind_manifest "\<lambda>s. s" "[planet_entry]" 200 flaky_fetch initial_state code_unit_compare]
  by (simp add: two_kind_response_def planet_response_def entry_count_def two_kind_manifest_def)

text \<open>
  Claim C7, as amended. When the manifest request fails, or the body of its response
  does not read as JSON, each of the three pages leaves \<open>files\<close> empty, sets the
  loading flag to \<open>false\<close>, and the effect ends with the exception. The status of the
  response is not examined: a response of any status whose body reads as a manifest
  is enriched and published. The loading flag is \<open>false\<close> after the effect whatever
  the outcome of the manifest request.
\<close>

theorem manifest_outcomes:
  "Page_effect NetworkError fetch initial_state = (\<lparr>files = [], loading = False\<rparr>, Some FetchRejected) \<and>
   Page_effect (Response status None) fetch initial_state = (\<lparr>files = [], loading = False\<rparr>, Some BodyRejected) \<and>
   Page_sorted_effect lc NetworkError fetch initial_state = (\<lparr>files = [], loading = False\<rparr>, Some FetchRejected) \<and>
   Page_sorted_effect lc (Response status None) fetch initial_state = (\<lparr>files = [], loading = False\<rparr>, Some BodyRejected) \<and>
   Page_planet_effect up lc NetworkError fetch initial_state = (\<lparr>files = [], loading = False\<rparr>, Some FetchRejected) \<and>
   Page_planet_effect up lc (Response status None) fetch initial_state = (\<lparr>files = [], loading = False\<rparr>, Some BodyRejected) \<and>
   loading (fst (Page_effect manifest fetch st)) = False \<and>
   loading (fst (Page_sorted_effect lc manifest fetch st)) = False \<and>
   loading (fst (Page_planet_effect up lc pmanifest fetch st)) = False \<and>
   (\<exists>rs. withHash fetch (category_items data) = Inr rs \<and>
      Page_effect (Response status (Some data)) fetch st
        = (st\<lparr>files := rs, loading := False\<rparr>, None) \<and>
      Page_sorted_effect lc (Response status (Some data)) fetch st
        = (st\<lparr>files := array_sort (by_extension lc) rs, loading := False\<rparr>, None)) \<and>
   (\<exists>ps. withHash fetch (planet_items up pdata) = Inr ps \<and>
      Page_planet_effect up lc (Response status (Some pdata)) fetch st
        = (st\<lparr>files := array_sort (by_extension lc) ps, loading := False\<rparr>, None))"
proof -
  have fin: "loading (fst (try_finally body st)) = False" for body
    by (simp add: try_finally_def split: sum.splits)
  obtain rs where rs: "withHash fetch (category_items data) = Inr rs"
    using withHash_total by blast
  obtain ps where ps: "withHash fetch (planet_items up pdata) = Inr ps"
    using withHash_total by blast
  have failed: "Page_effect NetworkError fetch initial_state = (\<lparr>files = [], loading = False\<rparr>, Some FetchRejected)"
    "Page_effect (Response status None) fetch initial_state = (\<lparr>files = [], loading = False\<rparr>, Some BodyRejected)"
    "Page_sorted_effect lc NetworkError fetch initial_state = (\<lparr>files = [], loading = False\<rparr>, Some FetchRejected)"
    "Page_sorted_effect lc (Response status None) fetch initial_state = (\<lparr>files = [], loading = False\<rparr>, Some BodyRejected)"
    "Page_planet_effect up lc NetworkError fetch initial_state = (\<lparr>files = [], loading = False\<rparr>, Some FetchRejected)"
    "Page_planet_effect up lc (Response status None) fetch initial_state = (\<lparr>files = [], loading = False\<rparr>, Some BodyRejected)"
    by (simp_all add: Page_effect_def Page_sorted_effect_def Page_planet_effect_def
        try_finally_def fetch_then_def initial_state_def)
  have flag: "loading (fst (Page_effect manifest fetch st)) = False"
    "loading (fst (Page_sorted_effect lc manifest fetch st)) = False"
    "loading (fst (Page_planet_effect up lc pmanifest fetch st)) = False"
    by (simp_all add: Page_effect_def Page_sorted_effect_def Page_planet_effect_def fin)
  from failed flag rs ps Page_effect_loaded [OF rs, of status st]
    Page_sorted_effect_loaded [OF rs, of lc status st]
    Page_planet_effect_loaded [OF ps, of lc status st]
  show ?thesis by blast
qed

theorem manifest_outcomes_witness:
  "Page_effect (Response 500 None) offline_fetch initial_state = (\<lparr>files = [], loading = False\<rparr>, Some BodyRejected) \<and>
   Page_planet_effect (\<lambda>s. s) code_unit_compare NetworkError offline_fetch initial_state
     = (\<lparr>files = [], loading = False\<rparr>, Some FetchRejected) \<and>
   loading (fst (Page_effect two_kind_response flaky_fetch initial_state)) = False \<and>
   Page_effect server_error_response flaky_fetch initial_state
     = (\<lparr>files = [scenario_file\<lparr>sha256 := Some NA\<rparr>, gol_file\<lparr>sha256 := Some (js ''deadbeef'')\<rparr>],
         loading = False\<rparr>, None)"
proof -
  have items: "category_items two_kind_manifest = [scenario_file, gol_file]"
    by (simp add: category_items_def two_kind_manifest_def category_item_def push_def pop_def
        or_empty_def scenario_entry_def gol_entry_def scenario_file_def gol_file_def js_def SLASH_def)
  have run: "withHash flaky_fetch [scenario_file, gol_file]
     = Inr [scenario_file\<lparr>sha256 := Some NA\<rparr>, gol_file\<lparr>sha256 := Some (js ''deadbeef'')\<rparr>]"
    by (simp add: withHash_def with_hash_item_def with_hash_try_def fetch_then_def sha256_of_text_def
      first_elem_def flaky_fetch_def scenario_file_def gol_file_def trim_def is_whitespace_def js_def SPACE_def)
  from manifest_outcomes [of offline_fetch 500 code_unit_compare "\<lambda>s. s" two_kind_response initial_state]
  have a: "Page_effect (Response 500 None) offline_fetch initial_state = (\<lparr>files = [], loading = False\<rparr>, Some BodyRejected)"
    and b: "Page_planet_effect (\<lambda>s. s) code_unit_compare NetworkError offline_fetch initial_state
     = (\<lparr>files = [], loading = False\<rparr>, Some FetchRejected)"
    by blast+
  from manifest_outcomes [of flaky_fetch 500 code_unit_compare "\<lambda>s. s" two_kind_response initial_state _ two_kind_manifest]
  have c: "loading (fst (Page_effect two_kind_response flaky_fetch initial_state)) = False"
    and d: "\<exists>rs. withHash flaky_fetch (category_items two_kind_manifest) = Inr rs \<and>
      Page_effect (Response 500 (Some two_kind_manifest)) flaky_fetch initial_state
        = (initial_state\<lparr>files := rs, loading := False\<rparr>, None)"
    by blast+
  from d have "Page_effect server_error_response flaky_fetch initial_state
     = (\<lparr>files = [scenario_file\<lparr>sha256 := Some NA\<rparr>, gol_file\<lparr>sha256 := Some (js ''deadbeef'')\<rparr>],
         loading = False\<rparr>, None)"
    by (auto simp add: items run server_error_response_def initial_state_def)
  with a b c show ?thesis by blast
qed

text \<open>
  Claim C7 as stated fails for the failure the specification's scenario names: a
  response with status 500 whose body reads as a manifest is published, and the
  record list is not empty.
\<close>

theorem manifest_status_counterexample:
  "files (fst (Page_effect server_error_response flaky_fetch initial_state))
     = [scenario_file\<lparr>sha256 := Some NA\<rparr>, gol_file\<lparr>sha256 := Some (js ''deadbeef'')\<rparr>]"
proof -
  have items: "category_items two_kind_manifest = [scenario_file, gol_file]"
    by (simp add: category_items_def two_kind_manifest_def category_item_def push_def pop_def
        or_empty_def scenario_entry_def gol_entry_def scenario_file_def gol_file_def js_def SLASH_def)
  have run: "withHash flaky_fetch [scenario_file, gol_file]
     = Inr [scenario_file\<lparr>sha256 := Some NA\<rparr>, gol_file\<lparr>sha256 := Some (js ''deadbeef'')\<rparr>]"
    by (simp add: withHash_def with_hash_item_def with_hash_try_def fetch_then_def sha256_of_text_def
      first_elem_def flaky_fetch_def scenario_file_def gol_file_def trim_def is_whitespace_def js_def SPACE_def)
  show ?thesis
    by (simp add: Page_effect_def server_error_response_def fetch_then_def items run try_finally_def)
qed

section \<open>Properties of the sort and of the published list\<close>

lemma mset_insert_sorted: "mset (insert_sorted cmp x ys) = add_mset x (mset ys)"
  by (induction ys) simp_all

lemma mset_array_sort: "mset (array_sort cmp xs) = mset xs"
  by (induction xs) (simp_all add: array_sort_def mset_insert_sorted)

lemma set_insert_sorted: "set (insert_sorted cmp x ys) = insert x (set ys)"
  using mset_insert_sorted [of cmp x ys, THEN arg_cong, of set_mset] by simp

lemma sorted_by_insert:
  assumes c: "consistent_comparator cmp" and s: "sorted_by cmp ys"
  shows "sorted_by cmp (insert_sorted cmp x ys)"
  using s
proof (induction ys)
  case Nil
  then show ?case by (simp add: sorted_by_def)
next
  case (Cons y ys)
  from c have trans: "\<And>a b d. cmp a b \<le> 0 \<Longrightarrow> cmp b d \<le> 0 \<Longrightarrow> cmp a d \<le> 0"
    and anti: "\<And>a b. (cmp a b < 0) = (cmp b a > 0)"
    unfolding consistent_comparator_def by blast+
  from Cons.prems have below: "\<forall>z\<in>set ys. cmp y z \<le> 0" and tail: "sorted_by cmp ys"
    by (simp_all add: sorted_by_def)
  show ?case
  proof (cases "cmp x y \<le> 0")
    case True
    then have "\<forall>z\<in>set (y # ys). cmp x z \<le> 0"
      using below trans by auto
    with Cons.prems True show ?thesis by (simp add: sorted_by_def)
  next
    case False
    then have "cmp y x \<le> 0"
      using anti [of y x] by simp
    with below have "\<forall>z\<in>set (insert_sorted cmp x ys). cmp y z \<le> 0"
      by (simp add: set_insert_sorted)
    with Cons.IH [OF tail] False show ?thesis by (simp add: sorted_by_def)
  qed
qed

lemma sorted_by_array_sort: "consistent_comparator cmp \<Longrightarrow> sorted_by cmp (array_sort cmp xs)"
proof (induction xs)
  case Nil
  then show ?case by (simp add: array_sort_def sorted_by_def)
next
  case (Cons x xs)
  then have "sorted_by cmp (insert_sorted cmp x (array_sort cmp xs))"
    by (intro sorted_by_insert) simp_all
  then show ?case by (simp add: array_sort_def)
qed

lemma array_sort_sorted: "sorted_by cmp xs \<Longrightarrow> array_sort cmp xs = xs"
proof (induction xs)
  case Nil
  then show ?case by (simp add: array_sort_def)
next
  case (Cons x xs)
  then have tail: "array_sort cmp xs = xs" and below: "\<forall>z\<in>set xs. cmp x z \<le> 0"
    by (simp_all add: sorted_by_def)
  have "insert_sorted cmp x xs = x # xs"
    using below by (cases xs) simp_all
  with tail show ?case by (simp add: array_sort_def)
qed

lemma split_single: "sep \<notin> set s \<Longrightarrow> split sep s = [s]"
  by (induction s) auto

lemma split_two: "sep \<in> set s \<Longrightarrow> \<exists>a b rest. split sep s = a # b # rest"
proof (induction s)
  case Nil
  then show ?case by simp
next
  case (Cons c s)
  show ?case
  proof (cases "c = sep")
    case True
    obtain x xs where "split sep s = x # xs"
      using split_not_empty [of sep s] by (cases "split sep s") auto
    with True show ?thesis by simp
  next
    case False
    with Cons.prems have "sep \<in> set s" by simp
    from Cons.IH [OF this] obtain a b rest where "split sep s = a # b # rest"
      by blast
    with False show ?thesis by simp
  qed
qed

lemma last_split: "sep \<notin> set ext \<Longrightarrow> last (split sep (pre @ sep # ext)) = ext"
proof (induction pre)
  case Nil
  then show ?case by (simp add: split_single)
next
  case (Cons c pre)
  have "sep \<in> set (pre @ sep # ext)" by simp
  from split_two [OF this] obtain a b rest where s: "split sep (pre @ sep # ext) = a # b # rest"
    by blast
  with Cons show ?case by (cases "c = sep") simp_all
qed

lemma file_ext_after_last_dot:
  "DOT \<notin> set ext \<Longrightarrow> filename f = pre @ DOT # ext \<Longrightarrow> file_ext f = ext"
  by (simp add: file_ext_def pop_def or_empty_def last_split split_not_empty)

lemma file_ext_no_dot: "DOT \<notin> set (filename f) \<Longrightarrow> file_ext f = filename f"
  by (simp add: file_ext_def pop_def or_empty_def split_single)

lemma consistent_caseless_compare: "consistent_comparator caseless_compare"
  unfolding consistent_comparator_def caseless_compare_def code_unit_compare_def by auto

lemma sorted_lexicographic:
  assumes agree: "\<forall>a b. (localeCompare a b \<le> 0) = (a \<le> b)"
  shows "sorted_by (by_extension localeCompare) xs = sorted_wrt (\<lambda>a b. file_ext a \<le> file_ext b) xs"
  using agree by (simp add: sorted_by_def by_extension_def)

lemma consistent_by_extension: "consistent_comparator lc \<Longrightarrow> consistent_comparator (by_extension lc)"
  unfolding consistent_comparator_def by_extension_def by blast

lemma consistent_code_unit_compare: "consistent_comparator code_unit_compare"
  unfolding consistent_comparator_def code_unit_compare_def by auto

text \<open>
  Claim C8. Under a consistent \<open>localeCompare\<close>, sorting a sequence that is already
  sorted by extension returns the same sequence, and sorting twice is sorting once.
\<close>

theorem sort_idempotent:
  assumes "consistent_comparator localeCompare"
  shows "(sorted_by (by_extension localeCompare) xs \<longrightarrow> array_sort (by_extension localeCompare) xs = xs) \<and>
         array_sort (by_extension localeCompare) (array_sort (by_extension localeCompare) xs)
           = array_sort (by_extension localeCompare) xs"
proof -
  from assms have "consistent_comparator (by_extension localeCompare)"
    by (rule consistent_by_extension)
  then have "sorted_by (by_extension localeCompare) (array_sort (by_extension localeCompare) xs)"
    by (rule sorted_by_array_sort)
  then show ?thesis
    by (simp add: array_sort_sorted)
qed

theorem sort_idempotent_witness:
  "array_sort (by_extension code_unit_compare) [gol_file, scenario_file] = [gol_file, scenario_file] \<and>
   array_sort (by_extension code_unit_compare) (array_sort (by_extension code_unit_compare) [scenario_file, gol_file])
     = array_sort (by_extension code_unit_compare) [scenario_file, gol_file]"
proof -
  have ext: "file_ext gol_file = js ''gol''" "file_ext scenario_file = js ''pbf''"
    by (simp_all add: file_ext_def gol_file_def scenario_file_def pop_def or_empty_def js_def DOT_def)
  have "sorted_by (by_extension code_unit_compare) [gol_file, scenario_file]"
    by (simp add: sorted_by_def by_extension_def ext code_unit_compare_def js_def)
  with sort_idempotent [OF consistent_code_unit_compare, of "[gol_file, scenario_file]"]
    sort_idempotent [OF consistent_code_unit_compare, of "[scenario_file, gol_file]"]
  show ?thesis by simp
qed

lemma compare_pbf_gol:
  "code_unit_compare (js ''pbf'') (js ''gol'') = 1"
  "code_unit_compare (js ''gol'') (js ''pbf'') = - 1"
  by (simp_all add: code_unit_compare_def js_def)

lemma compare_gol_PBF:
  "caseless_compare (js ''PBF'') (js ''gol'') = 1"
  "caseless_compare (js ''gol'') (js ''PBF'') = - 1"
  by (simp_all add: caseless_compare_def code_unit_compare_def to_lower_def js_def)

text \<open>
  Claim C6, as amended. Under a consistent \<open>localeCompare\<close>, the two pages that sort
  publish a permutation of the enriched records that is sorted ascending by file
  extension in the order of \<open>localeCompare\<close>, which is the lexicographic order of the
  extensions when \<open>localeCompare\<close> agrees with the comparison by code units. The
  extension is the text after the last \<open>.\<close> of the file name, and the whole name when
  it has no \<open>.\<close>. The companion requests are issued in manifest order and the sort
  is applied to the result of the enrichment. The page of \<open>src/app/page.tsx\<close>
  publishes the enriched records in manifest order.
\<close>

theorem published_order_by_extension:
  assumes "consistent_comparator localeCompare"
  shows "\<exists>rs ps.
     withHash fetch (category_items data) = Inr rs \<and>
     map filename rs = map filename (category_items data) \<and>
     withHash fetch (planet_items up pdata) = Inr ps \<and>
     map filename ps = map filename (planet_items up pdata) \<and>
     Page_requests (Response status (Some data)) = issued_requests (category_items data) \<and>
     Page_planet_requests up (Response status (Some pdata)) = issued_requests (planet_items up pdata) \<and>
     files (fst (Page_sorted_effect localeCompare (Response status (Some data)) fetch st))
       = array_sort (by_extension localeCompare) rs \<and>
     sorted_by (by_extension localeCompare)
       (files (fst (Page_sorted_effect localeCompare (Response status (Some data)) fetch st))) \<and>
     mset (files (fst (Page_sorted_effect localeCompare (Response status (Some data)) fetch st))) = mset rs \<and>
     files (fst (Page_planet_effect up localeCompare (Response status (Some pdata)) fetch st))
       = array_sort (by_extension localeCompare) ps \<and>
     sorted_by (by_extension localeCompare)
       (files (fst (Page_planet_effect up localeCompare (Response status (Some pdata)) fetch st))) \<and>
     mset (files (fst (Page_planet_effect up localeCompare (Response status (Some pdata)) fetch st))) = mset ps \<and>
     files (fst (Page_effect (Response status (Some data)) fetch st)) = rs \<and>
     ((\<forall>a b. (localeCompare a b \<le> 0) = (a \<le> b)) \<longrightarrow>
        sorted_wrt (\<lambda>a b. file_ext a \<le> file_ext b)
          (files (fst (Page_sorted_effect localeCompare (Response status (Some data)) fetch st))) \<and>
        sorted_wrt (\<lambda>a b. file_ext a \<le> file_ext b)
          (files (fst (Page_planet_effect up localeCompare (Response status (Some pdata)) fetch st)))) \<and>
     (\<forall>f pre ext. DOT \<notin> set ext \<and> filename f = pre @ DOT # ext \<longrightarrow> file_ext f = ext) \<and>
     (\<forall>f. DOT \<notin> set (filename f) \<longrightarrow> file_ext f = filename f)"
proof -
  obtain rs where rs: "withHash fetch (category_items data) = Inr rs"
    and names: "map filename rs = map filename (category_items data)"
    using withHash_total by blast
  obtain ps where ps: "withHash fetch (planet_items up pdata) = Inr ps"
    and pnames: "map filename ps = map filename (planet_items up pdata)"
    using withHash_total by blast
  let ?sorted = "files (fst (Page_sorted_effect localeCompare (Response status (Some data)) fetch st))"
  let ?planet = "files (fst (Page_planet_effect up localeCompare (Response status (Some pdata)) fetch st))"
  have req: "Page_requests (Response status (Some data)) = issued_requests (category_items data)"
    "Page_planet_requests up (Response status (Some pdata)) = issued_requests (planet_items up pdata)"
    by (simp_all add: Page_requests_def Page_planet_requests_def fetch_then_def)
  from assms have c: "consistent_comparator (by_extension localeCompare)"
    by (rule consistent_by_extension)
  have eq: "?sorted = array_sort (by_extension localeCompare) rs"
    "?planet = array_sort (by_extension localeCompare) ps"
    "files (fst (Page_effect (Response status (Some data)) fetch st)) = rs"
    by (simp_all add: Page_effect_loaded [OF rs] Page_sorted_effect_loaded [OF rs]
        Page_planet_effect_loaded [OF ps])
  have srt: "sorted_by (by_extension localeCompare) ?sorted"
    "sorted_by (by_extension localeCompare) ?planet"
    unfolding eq using c by (rule sorted_by_array_sort)+
  have perm: "mset ?sorted = mset rs" "mset ?planet = mset ps"
    unfolding eq by (simp_all add: mset_array_sort)
  have lex: "(\<forall>a b. (localeCompare a b \<le> 0) = (a \<le> b)) \<longrightarrow>
        sorted_wrt (\<lambda>a b. file_ext a \<le> file_ext b) ?sorted \<and>
        sorted_wrt (\<lambda>a b. file_ext a \<le> file_ext b) ?planet"
  proof
    assume agree: "\<forall>a b. (localeCompare a b \<le> 0) = (a \<le> b)"
    from srt show "sorted_wrt (\<lambda>a b. file_ext a \<le> file_ext b) ?sorted \<and>
        sorted_wrt (\<lambda>a b. file_ext a \<le> file_ext b) ?planet"
      unfolding sorted_lexicographic [OF agree] by (rule conjI)
  qed
  have key1: "\<forall>f pre ext. DOT \<notin> set ext \<and> filename f = pre @ DOT # ext \<longrightarrow> file_ext f = ext"
    by (simp add: file_ext_after_last_dot)
  have key2: "\<forall>f. DOT \<notin> set (filename f) \<longrightarrow> file_ext f = filename f"
    by (simp add: file_ext_no_dot)
  show ?thesis
    by (intro exI [of _ rs] exI [of _ ps] conjI)
       (rule rs names ps pnames req eq srt perm lex key1 key2)+
qed

lemma code_unit_compare_agrees: "\<forall>a b. (code_unit_compare a b \<le> 0) = (a \<le> b)"
  by (auto simp add: code_unit_compare_def)

theorem published_order_by_extension_witness:
  "files (fst (Page_sorted_effect code_unit_compare two_kind_response flaky_fetch initial_state))
     = [gol_file\<lparr>sha256 := Some (js ''deadbeef'')\<rparr>, scenario_file\<lparr>sha256 := Some NA\<rparr>] \<and>
   sorted_by (by_extension code_unit_compare)
     (files (fst (Page_sorted_effect code_unit_compare two_kind_response flaky_fetch initial_state))) \<and>
   sorted_wrt (\<lambda>a b. file_ext a \<le> file_ext b)
     (files (fst (Page_sorted_effect code_unit_compare two_kind_response flaky_fetch initial_state))) \<and>
   files (fst (Page_effect two_kind_response flaky_fetch initial_state))
     = [scenario_file\<lparr>sha256 := Some NA\<rparr>, gol_file\<lparr>sha256 := Some (js ''deadbeef'')\<rparr>] \<and>
   Page_requests two_kind_response = issued_requests [scenario_file, gol_file] \<and>
   file_ext (planet_item (\<lambda>s. s) planet_entry) = js ''pbf''"
proof -
  have items: "category_items two_kind_manifest = [scenario_file, gol_file]"
    by (simp add: category_items_def two_kind_manifest_def category_item_def push_def pop_def
        or_empty_def scenario_entry_def gol_entry_def scenario_file_def gol_file_def js_def SLASH_def)
  have run: "withHash flaky_fetch [scenario_file, gol_file]
     = Inr [scenario_file\<lparr>sha256 := Some NA\<rparr>, gol_file\<lparr>sha256 := Some (js ''deadbeef'')\<rparr>]"
    by (simp add: withHash_def with_hash_item_def with_hash_try_def fetch_then_def sha256_of_text_def
      first_elem_def flaky_fetch_def scenario_file_def gol_file_def trim_def is_whitespace_def js_def SPACE_def)
  have ext: "file_ext (gol_file\<lparr>sha256 := Some (js ''deadbeef'')\<rparr>) = js ''gol''"
    "file_ext (scenario_file\<lparr>sha256 := Some NA\<rparr>) = js ''pbf''"
    by (simp_all add: file_ext_def gol_file_def scenario_file_def pop_def or_empty_def js_def DOT_def)
  have sorted: "array_sort (by_extension code_unit_compare)
      [scenario_file\<lparr>sha256 := Some NA\<rparr>, gol_file\<lparr>sha256 := Some (js ''deadbeef'')\<rparr>]
     = [gol_file\<lparr>sha256 := Some (js ''deadbeef'')\<rparr>, scenario_file\<lparr>sha256 := Some NA\<rparr>]"
    by (simp add: array_sort_def by_extension_def ext compare_pbf_gol)
  have name: "filename (planet_item (\<lambda>s. s) planet_entry) = js ''planet-latest.osm'' @ DOT # js ''pbf''"
    and nodot: "DOT \<notin> set (js ''pbf'')"
    by (simp_all add: planet_item_def planet_entry_def js_def DOT_def)
  from published_order_by_extension [OF consistent_code_unit_compare,
      of flaky_fetch two_kind_manifest "\<lambda>s. s" "[planet_entry]" 200 initial_state]
  obtain rs where rs: "withHash flaky_fetch (category_items two_kind_manifest) = Inr rs"
    and req: "Page_requests (Response 200 (Some two_kind_manifest)) = issued_requests (category_items two_kind_manifest)"
    and a: "files (fst (Page_sorted_effect code_unit_compare (Response 200 (Some two_kind_manifest)) flaky_fetch initial_state))
       = array_sort (by_extension code_unit_compare) rs"
    and b: "sorted_by (by_extension code_unit_compare)
       (files (fst (Page_sorted_effect code_unit_compare (Response 200 (Some two_kind_manifest)) flaky_fetch initial_state)))"
    and c: "files (fst (Page_effect (Response 200 (Some two_kind_manifest)) flaky_fetch initial_state)) = rs"
    and lex: "(\<forall>a b. (code_unit_compare a b \<le> 0) = (a \<le> b)) \<longrightarrow>
        sorted_wrt (\<lambda>a b. file_ext a \<le> file_ext b)
          (files (fst (Page_sorted_effect code_unit_compare (Response 200 (Some two_kind_manifest)) flaky_fetch initial_state)))"
    and key: "\<forall>f pre ext. DOT \<notin> set ext \<and> filename f = pre @ DOT # ext \<longrightarrow> file_ext f = ext"
    by blast
  from rs have rs_eq: "rs = [scenario_file\<lparr>sha256 := Some NA\<rparr>, gol_file\<lparr>sha256 := Some (js ''deadbeef'')\<rparr>]"
    by (simp add: items run)
  from key name nodot have "file_ext (planet_item (\<lambda>s. s) planet_entry) = js ''pbf''"
    by blast
  moreover from lex code_unit_compare_agrees
  have "sorted_wrt (\<lambda>a b. file_ext a \<le> file_ext b)
          (files (fst (Page_sorted_effect code_unit_compare (Response 200 (Some two_kind_manifest)) flaky_fetch initial_state)))"
    by (rule mp)
  ultimately show ?thesis
    using a b c req
    by (simp add: rs_eq sorted items two_kind_response_def)
qed

text \<open>
  Claim C6 as stated fails in three ways. \<open>src/app/page.tsx\<close> has no sort: a manifest
  with the category \<open>pbf\<close> before \<open>gol\<close> is published in that order. Where a page
  sorts, the order is that of \<open>localeCompare\<close>: under a collation that ignores case,
  \<open>gol\<close> is published before \<open>PBF\<close>, which is not the lexicographic order. And the
  requests are issued in manifest order, \<open>a.pbf\<close> first, although \<open>b.gol\<close> is published
  first: the order is not established before the checksum fetches.
\<close>

theorem published_order_counterexample:
  "map file_ext (files (fst (Page_effect two_kind_response flaky_fetch initial_state)))
     = [js ''pbf'', js ''gol''] \<and>
   \<not> js ''pbf'' \<le> js ''gol'' \<and>
   \<not> sorted_by (by_extension code_unit_compare)
        (files (fst (Page_effect two_kind_response flaky_fetch initial_state))) \<and>
   map file_ext (files (fst (Page_sorted_effect caseless_compare upper_response flaky_fetch initial_state)))
     = [js ''gol'', js ''PBF''] \<and>
   \<not> js ''gol'' \<le> js ''PBF'' \<and>
   Page_requests two_kind_response = [js ''https://x/a.pbf.sha256'', js ''https://x/b.gol.sha256''] \<and>
   map FileItem.url (files (fst (Page_sorted_effect code_unit_compare two_kind_response flaky_fetch initial_state)))
     = [js ''https://x/b.gol'', js ''https://x/a.pbf'']"
proof -
  have items: "category_items two_kind_manifest = [scenario_file, gol_file]"
    by (simp add: category_items_def two_kind_manifest_def category_item_def push_def pop_def
        or_empty_def scenario_entry_def gol_entry_def scenario_file_def gol_file_def js_def SLASH_def)
  have run: "withHash flaky_fetch [scenario_file, gol_file]
     = Inr [scenario_file\<lparr>sha256 := Some NA\<rparr>, gol_file\<lparr>sha256 := Some (js ''deadbeef'')\<rparr>]"
    by (simp add: withHash_def with_hash_item_def with_hash_try_def fetch_then_def sha256_of_text_def
      first_elem_def flaky_fetch_def scenario_file_def gol_file_def trim_def is_whitespace_def js_def SPACE_def)
  have ext: "file_ext (gol_file\<lparr>sha256 := Some (js ''deadbeef'')\<rparr>) = js ''gol''"
    "file_ext (scenario_file\<lparr>sha256 := Some NA\<rparr>) = js ''pbf''"
    "file_ext (upper_file\<lparr>sha256 := Some (js ''deadbeef'')\<rparr>) = js ''PBF''"
    by (simp_all add: file_ext_def gol_file_def scenario_file_def upper_file_def pop_def
        or_empty_def js_def DOT_def)
  have published: "files (fst (Page_effect two_kind_response flaky_fetch initial_state))
     = [scenario_file\<lparr>sha256 := Some NA\<rparr>, gol_file\<lparr>sha256 := Some (js ''deadbeef'')\<rparr>]"
    by (simp add: Page_effect_def two_kind_response_def fetch_then_def items run try_finally_def)
  have order: "\<not> js ''pbf'' \<le> js ''gol''" "\<not> js ''gol'' \<le> js ''PBF''"
    by (simp_all add: js_def)
  have unsorted: "\<not> sorted_by (by_extension code_unit_compare)
        [scenario_file\<lparr>sha256 := Some NA\<rparr>, gol_file\<lparr>sha256 := Some (js ''deadbeef'')\<rparr>]"
    by (simp add: sorted_by_def by_extension_def ext compare_pbf_gol)
  have upper_items: "category_items [(js ''pbf'', [upper_entry]), (js ''gol'', [gol_entry])]
      = [upper_file, gol_file]"
    by (simp add: category_items_def category_item_def push_def pop_def
        or_empty_def upper_entry_def gol_entry_def upper_file_def gol_file_def js_def SLASH_def)
  have upper_run: "withHash flaky_fetch [upper_file, gol_file]
     = Inr [upper_file\<lparr>sha256 := Some (js ''deadbeef'')\<rparr>, gol_file\<lparr>sha256 := Some (js ''deadbeef'')\<rparr>]"
    by (simp add: withHash_def with_hash_item_def with_hash_try_def fetch_then_def sha256_of_text_def
      first_elem_def flaky_fetch_def upper_file_def gol_file_def trim_def is_whitespace_def js_def SPACE_def)
  have upper_sorted: "array_sort (by_extension caseless_compare)
      [upper_file\<lparr>sha256 := Some (js ''deadbeef'')\<rparr>, gol_file\<lparr>sha256 := Some (js ''deadbeef'')\<rparr>]
     = [gol_file\<lparr>sha256 := Some (js ''deadbeef'')\<rparr>, upper_file\<lparr>sha256 := Some (js ''deadbeef'')\<rparr>]"
    by (simp add: array_sort_def by_extension_def ext compare_gol_PBF)
  have upper_published:
    "files (fst (Page_sorted_effect caseless_compare upper_response flaky_fetch initial_state))
     = [gol_file\<lparr>sha256 := Some (js ''deadbeef'')\<rparr>, upper_file\<lparr>sha256 := Some (js ''deadbeef'')\<rparr>]"
    by (simp add: Page_sorted_effect_def upper_response_def fetch_then_def upper_items upper_run
        upper_sorted try_finally_def)
  have sorted: "array_sort (by_extension code_unit_compare)
      [scenario_file\<lparr>sha256 := Some NA\<rparr>, gol_file\<lparr>sha256 := Some (js ''deadbeef'')\<rparr>]
     = [gol_file\<lparr>sha256 := Some (js ''deadbeef'')\<rparr>, scenario_file\<lparr>sha256 := Some NA\<rparr>]"
    by (simp add: array_sort_def by_extension_def ext compare_pbf_gol)
  have sorted_published:
    "files (fst (Page_sorted_effect code_unit_compare two_kind_response flaky_fetch initial_state))
     = [gol_file\<lparr>sha256 := Some (js ''deadbeef'')\<rparr>, scenario_file\<lparr>sha256 := Some NA\<rparr>]"
    by (simp add: Page_sorted_effect_def two_kind_response_def fetch_then_def items run
        sorted try_finally_def)
  have requests: "Page_requests two_kind_response
      = [js ''https://x/a.pbf.sha256'', js ''https://x/b.gol.sha256'']"
    by (simp add: Page_requests_def two_kind_response_def fetch_then_def items issued_requests_def
        scenario_file_def gol_file_def js_def)
  have p1: "map file_ext (files (fst (Page_effect two_kind_response flaky_fetch initial_state)))
     = [js ''pbf'', js ''gol'']"
    by (simp add: published ext)
  have p2: "\<not> sorted_by (by_extension code_unit_compare)
        (files (fst (Page_effect two_kind_response flaky_fetch initial_state)))"
    using unsorted by (simp add: published)
  have p3: "map file_ext (files (fst (Page_sorted_effect caseless_compare upper_response flaky_fetch initial_state)))
     = [js ''gol'', js ''PBF'']"
    by (simp add: upper_published ext)
  have p4: "map FileItem.url (files (fst (Page_sorted_effect code_unit_compare two_kind_response flaky_fetch initial_state)))
     = [js ''https://x/b.gol'', js ''https://x/a.pbf'']"
    by (simp add: sorted_published gol_file_def scenario_file_def)
  show ?thesis
    by (intro conjI) (rule p1 p2 p3 p4 order requests)+
qed

end
